theory Spec2Isabelle
  imports Main "HOL-Library.Sublist" "HOL-Library.Char_ord" "HOL-Library.List_Lexorder"
    "HOL-Library.Multiset"
begin

section \<open>Python strings\<close>

text \<open>
  A Python \<open>str\<close> is modelled as a \<open>string\<close> whose characters are the code points
  below 256.  \<open>str.strip()\<close> removes the characters for which \<open>str.isspace()\<close> holds;
  in that range these are TAB..CR, FS..US, SPACE, NEL and NBSP.
\<close>

definition py_isspace :: "char \<Rightarrow> bool" where
  "py_isspace c =
     (let n = (of_char c :: nat)
      in (9 \<le> n \<and> n \<le> 13) \<or> (28 \<le> n \<and> n \<le> 32) \<or> n = 133 \<or> n = 160)"

definition lstrip_by :: "(char \<Rightarrow> bool) \<Rightarrow> string \<Rightarrow> string" where
  "lstrip_by P s = dropWhile P s"

definition rstrip_by :: "(char \<Rightarrow> bool) \<Rightarrow> string \<Rightarrow> string" where
  "rstrip_by P s = rev (dropWhile P (rev s))"

definition strip_by :: "(char \<Rightarrow> bool) \<Rightarrow> string \<Rightarrow> string" where
  "strip_by P s = rstrip_by P (lstrip_by P s)"

text \<open>\<open>s.strip()\<close>, \<open>s.rstrip(chars)\<close> and \<open>s.strip(chars)\<close>.\<close>

definition py_strip :: "string \<Rightarrow> string" where
  "py_strip s = strip_by py_isspace s"

definition py_rstrip_chars :: "string \<Rightarrow> string \<Rightarrow> string" where
  "py_rstrip_chars chars s = rstrip_by (\<lambda>c. c \<in> set chars) s"

definition py_strip_chars :: "string \<Rightarrow> string \<Rightarrow> string" where
  "py_strip_chars chars s = strip_by (\<lambda>c. c \<in> set chars) s"

text \<open>\<open>s.lower()\<close>: A..Z and the Latin-1 capitals (all of 192..222 but the
  multiplication sign 215) move up by 32.\<close>

definition py_lower_char :: "char \<Rightarrow> char" where
  "py_lower_char c =
     (let n = (of_char c :: nat)
      in if (65 \<le> n \<and> n \<le> 90) \<or> (192 \<le> n \<and> n \<le> 222 \<and> n \<noteq> 215)
         then char_of (n + 32) else c)"

definition py_lower :: "string \<Rightarrow> string" where
  "py_lower s = map py_lower_char s"

text \<open>\<open>b in s\<close> on strings: \<open>b\<close> occurs in \<open>s\<close> as a contiguous block.\<close>

fun py_in :: "string \<Rightarrow> string \<Rightarrow> bool" where
  "py_in b [] = (b = [])"
| "py_in b (x # xs) = (prefix b (x # xs) \<or> py_in b xs)"

text \<open>\<open>s.startswith(p)\<close>.\<close>

definition startswith :: "string \<Rightarrow> string \<Rightarrow> bool" where
  "startswith s p = prefix p s"

section \<open>The SQL safety gate\<close>

datatype error =
    ValueError string
  | ExcelFileError
  | SheetParseError
  | RegisterError
  | DtypeError

definition banned :: "string list" where
  "banned = [''drop '', ''delete '', ''update '', ''insert '', ''create '', ''alter '',
             ''truncate '', ''grant '', ''revoke '']"

text \<open>The first statement of both validators:
  \<open>sql = (sql or "").strip().rstrip(";").strip()\<close>.  The body shared by \<open>ExcelStore._validate_sql\<close> and \<open>_sanitize_sql\<close>; the two
  differ only in the message raised for a remaining semicolon.\<close>

definition trim_sql :: "string \<Rightarrow> string" where
  "trim_sql sql0 = py_strip (py_rstrip_chars '';'' (py_strip sql0))"

definition sql_gate :: "string \<Rightarrow> string \<Rightarrow> error + string" where
  "sql_gate semicolon_msg sql0 =
     (let sql = trim_sql sql0 in
      if CHR '';'' \<in> set sql then Inl (ValueError semicolon_msg)
      else let lowered = py_lower sql in
        if list_ex (\<lambda>b. py_in b lowered) banned
          then Inl (ValueError ''Destructive SQL is not allowed.'')
        else if \<not> (startswith lowered ''select'' \<or> startswith lowered ''with'')
          then Inl (ValueError ''SQL must start with SELECT or WITH.'')
        else Inr sql)"

definition validate_sql :: "string \<Rightarrow> error + string" where
  "validate_sql sql =
     sql_gate ''Only one SQL statement is allowed (no semicolons).'' sql"

definition sanitize_sql :: "string \<Rightarrow> error + string" where
  "sanitize_sql sql =
     sql_gate ''SQL contains a semicolon; only one statement is allowed.'' sql"


section \<open>Decimal rendering of integers\<close>

text \<open>\<open>str(n)\<close> for a Python \<open>int\<close>, as used by the f-strings of the source.\<close>

definition digit_char :: "nat \<Rightarrow> char" where
  "digit_char d = char_of (48 + d)"

fun str_nat :: "nat \<Rightarrow> string" where
  "str_nat n = (if n < 10 then [digit_char n]
                else str_nat (n div 10) @ [digit_char (n mod 10)])"

declare str_nat.simps [simp del]

definition str_int :: "int \<Rightarrow> string" where
  "str_int i = (if i < 0 then CHR ''-'' # str_nat (nat (- i)) else str_nat (nat i))"

section \<open>Name normalisation\<close>

text \<open>The character class \<open>[a-zA-Z0-9_]\<close>.\<close>

definition is_word :: "char \<Rightarrow> bool" where
  "is_word c =
     (let n = (of_char c :: nat)
      in (97 \<le> n \<and> n \<le> 122) \<or> (65 \<le> n \<and> n \<le> 90) \<or> (48 \<le> n \<and> n \<le> 57) \<or> n = 95)"

text \<open>\<open>re.sub(r"[^a-zA-Z0-9_]+", "_", s)\<close>: every maximal run of characters outside
  the class becomes one underscore.\<close>

function sub_nonword :: "string \<Rightarrow> string" where
  "sub_nonword [] = []"
| "sub_nonword (c # cs) =
     (if is_word c then c # sub_nonword cs
      else CHR ''_'' # sub_nonword (dropWhile (\<lambda>d. \<not> is_word d) cs))"
  by pat_completeness auto

termination sub_nonword
  by (relation "measure length") (simp_all add: less_Suc_eq_le length_dropWhile_le)

text \<open>\<open>re.sub(r"_{2,}", "_", s)\<close>: every maximal run of two or more underscores
  becomes one underscore.\<close>

function sub_underscores :: "string \<Rightarrow> string" where
  "sub_underscores [] = []"
| "sub_underscores (c # cs) =
     (if c = CHR ''_'' \<and> cs \<noteq> [] \<and> hd cs = CHR ''_''
      then CHR ''_'' # sub_underscores (dropWhile (\<lambda>d. d = CHR ''_'') cs)
      else c # sub_underscores cs)"
  by pat_completeness auto

termination sub_underscores
  by (relation "measure length") (simp_all add: less_Suc_eq_le length_dropWhile_le)

definition safe_name :: "string \<Rightarrow> string" where
  "safe_name s0 =
     (let s1 = sub_nonword (py_strip s0);
          s2 = py_strip_chars ''_'' (sub_underscores s1)
      in if s2 \<noteq> [] then take 80 s2 else ''table'')"

section \<open>The table catalog\<close>

text \<open>A Python \<open>dict\<close> keeps insertion order and holds each key once: an association
  list to which \<open>d[k] = v\<close> appends a new key and overwrites an old one in place.\<close>

type_synonym ('k, 'v) dict = "('k \<times> 'v) list"

definition dict_keys :: "('k, 'v) dict \<Rightarrow> 'k list" where
  "dict_keys d = map fst d"

definition dict_has :: "'k \<Rightarrow> ('k, 'v) dict \<Rightarrow> bool" where
  "dict_has k d = (k \<in> set (dict_keys d))"

definition dict_set :: "'k \<Rightarrow> 'v \<Rightarrow> ('k, 'v) dict \<Rightarrow> ('k, 'v) dict" where
  "dict_set k v d =
     (if dict_has k d then map (\<lambda>(k', v'). if k' = k then (k', v) else (k', v')) d
      else d @ [(k, v)])"

text \<open>A parsed sheet (a pandas \<open>DataFrame\<close>): its column labels and its rows of cells.\<close>

record 'v frame =
  columns :: "string list"
  data :: "'v list list"

text \<open>The metadata entry \<open>ExcelStore.tables[tname]\<close>.\<close>

record 'v table_meta =
  file_name :: string
  sheet :: string
  rows :: nat
  cols :: "string list"
  dtypes :: "(string, string) dict"
  sample :: "(string \<times> 'v) list list"

text \<open>The store: the views registered in the DuckDB connection, the statements the
  connection was asked to execute, and the catalog \<open>self.tables\<close>.\<close>

record 'v store =
  registered :: "(string, 'v frame) dict"
  executed :: "string list"
  tables :: "(string, 'v table_meta) dict"

text \<open>What pandas and DuckDB decide is an input of the model: whether the connection
  accepts a frame under a name, the dtype tag pandas reports for a column of a frame (or
  its failure to report one), and the frame or error that executing a statement gives.\<close>

record 'v libs =
  accepts :: "string \<Rightarrow> 'v frame \<Rightarrow> bool"
  dtype_of :: "'v frame \<Rightarrow> string \<Rightarrow> string option"
  run_query :: "(string, 'v frame) dict \<Rightarrow> string \<Rightarrow> error + 'v frame"


text \<open>The loop of \<open>add_excel_file\<close> that makes a table name unique:
  \<open>while tname in self.tables: tname = f"{original}_{i}"; i += 1\<close>.  It ends because
  the rendering of \<open>i\<close> outgrows every key of the catalog.\<close>

function unique_loop :: "string list \<Rightarrow> string \<Rightarrow> string \<Rightarrow> nat \<Rightarrow> string" where
  "unique_loop keys original tname i =
     (if tname \<in> set keys
      then unique_loop keys original (original @ ''_'' @ str_nat i) (i + 1)
      else tname)"
  by pat_completeness auto

termination unique_loop
proof (relation "measure (\<lambda>(keys, original, tname, i).
         2 * (10 ^ sum_list (map length keys) - i) + (if tname \<in> set keys then 1 else 0))")
  show "wf (measure (\<lambda>(keys, original, tname, i).
         2 * (10 ^ sum_list (map length keys) - i) + (if tname \<in> set keys then 1 else (0::nat))))"
    by simp
next
  fix keys :: "string list" and original tname :: string and i :: nat
  assume "tname \<in> set keys"
  have digits: "n < 10 ^ length (str_nat n)" for n
  proof (induction n rule: str_nat.induct)
    case (1 n)
    show ?case
    proof (cases "n < 10")
      case True
      then show ?thesis by (simp add: str_nat.simps [of n])
    next
      case False
      with 1 have "n div 10 < 10 ^ length (str_nat (n div 10))" by simp
      then have "n < 10 * 10 ^ length (str_nat (n div 10))" by linarith
      with False show ?thesis by (simp add: str_nat.simps [of n])
    qed
  qed
  have len: "length k \<le> sum_list (map length keys)" if "k \<in> set keys" for k
    using that by (induction keys) auto
  let ?B = "(10::nat) ^ sum_list (map length keys)"
  let ?next = "original @ ''_'' @ str_nat i"
  have far: "?next \<notin> set keys" if "?B \<le> i"
  proof
    assume "?next \<in> set keys"
    then have "length ?next \<le> sum_list (map length keys)" by (rule len)
    then have "length (str_nat i) \<le> sum_list (map length keys)" by simp
    then have "(10::nat) ^ length (str_nat i) \<le> ?B" by (simp add: power_increasing)
    with digits [of i] that show False by simp
  qed
  show "((keys, original, ?next, i + 1), (keys, original, tname, i))
        \<in> measure (\<lambda>(keys, original, tname, i).
            2 * (10 ^ sum_list (map length keys) - i) + (if tname \<in> set keys then 1 else 0))"
  proof (cases "?B \<le> i")
    case True
    with far \<open>tname \<in> set keys\<close> show ?thesis by simp
  next
    case False
    with \<open>tname \<in> set keys\<close> show ?thesis by auto
  qed
qed

declare unique_loop.simps [simp del]

definition unique_name :: "string list \<Rightarrow> string \<Rightarrow> string" where
  "unique_name keys original = unique_loop keys original original 2"


text \<open>\<open>file_name.rsplit(".", 1)[0]\<close>: the part before the last dot, or the whole
  name when it has none.\<close>

definition rsplit_head :: "string \<Rightarrow> string" where
  "rsplit_head s =
     (if CHR ''.'' \<in> set s then rev (tl (dropWhile (\<lambda>c. c \<noteq> CHR ''.'') (rev s))) else s)"

text \<open>\<open>{c: str(df[c].dtype) for c in df.columns}\<close>, left to right; it raises where
  pandas reports no dtype.\<close>

fun dtype_dict ::
  "'v libs \<Rightarrow> 'v frame \<Rightarrow> string list \<Rightarrow> (string, string) dict
     \<Rightarrow> error + (string, string) dict" where
  "dtype_dict L df [] acc = Inr acc"
| "dtype_dict L df (c # cs) acc =
     (case dtype_of L df c of
        None \<Rightarrow> Inl DtypeError
      | Some t \<Rightarrow> dtype_dict L df cs (dict_set c t acc))"

text \<open>The dictionary literal stored under the table name; \<open>df.head(5)\<close> as records
  pairs every cell of the first five rows with its column.\<close>

definition build_meta ::
  "'v libs \<Rightarrow> string \<Rightarrow> string \<Rightarrow> 'v frame \<Rightarrow> error + 'v table_meta" where
  "build_meta L fname sheet_name df =
     (case dtype_dict L df (columns df) [] of
        Inl e \<Rightarrow> Inl e
      | Inr dt \<Rightarrow>
          Inr \<lparr> file_name = fname, sheet = sheet_name, rows = length (data df),
                cols = columns df, dtypes = dt,
                sample = map (zip (columns df)) (take 5 (data df)) \<rparr>)"

text \<open>One turn of the loop over \<open>xls.sheet_names\<close>.  The sheet arrives with the
  outcome of \<open>xls.parse\<close>: \<open>None\<close> when parsing it raises.\<close>

definition add_sheet ::
  "'v libs \<Rightarrow> string \<Rightarrow> string \<Rightarrow> string \<times> 'v frame option \<Rightarrow> 'v store
     \<Rightarrow> (error + unit) \<times> 'v store" where
  "add_sheet L fname base sh st =
     (case snd sh of
        None \<Rightarrow> (Inl SheetParseError, st)
      | Some df0 \<Rightarrow>
          let df = df0 \<lparr> columns := map safe_name (columns df0) \<rparr>;
              tname = unique_name (dict_keys (tables st)) (safe_name (base @ ''__'' @ fst sh))
          in if \<not> accepts L tname df then (Inl RegisterError, st)
             else
               (let st1 = st \<lparr> registered := dict_set tname df (registered st) \<rparr>
                in (case build_meta L fname (fst sh) df of
                      Inl e \<Rightarrow> (Inl e, st1)
                    | Inr m \<Rightarrow>
                        (Inr (), st1 \<lparr> tables := dict_set tname m (tables st1) \<rparr>))))"

fun add_sheets ::
  "'v libs \<Rightarrow> string \<Rightarrow> string \<Rightarrow> (string \<times> 'v frame option) list \<Rightarrow> 'v store
     \<Rightarrow> (error + unit) \<times> 'v store" where
  "add_sheets L fname base [] st = (Inr (), st)"
| "add_sheets L fname base (sh # shs) st =
     (case add_sheet L fname base sh st of
        (Inl e, st') \<Rightarrow> (Inl e, st')
      | (Inr u, st') \<Rightarrow> add_sheets L fname base shs st')"

text \<open>\<open>ExcelStore.add_excel_file\<close>.  The bytes arrive with the outcome of
  \<open>pd.ExcelFile\<close>: \<open>None\<close> when they are no spreadsheet, else the sheets in the
  order of \<open>xls.sheet_names\<close>.\<close>

definition add_excel_file ::
  "'v libs \<Rightarrow> 'v store \<Rightarrow> string \<Rightarrow> (string \<times> 'v frame option) list option
     \<Rightarrow> (error + unit) \<times> 'v store" where
  "add_excel_file L st fname xls =
     (case xls of
        None \<Rightarrow> (Inl ExcelFileError, st)
      | Some sheets \<Rightarrow> add_sheets L fname (safe_name (rsplit_head fname)) sheets st)"

definition catalog :: "'v store \<Rightarrow> (string, 'v table_meta) dict" where
  "catalog st = tables st"

section \<open>The catalog signature\<close>

text \<open>\<open>json.dumps\<close> with its defaults (\<open>ensure_ascii\<close>, separators \<open>", "\<close> and
  \<open>": "\<close>) on a dictionary from strings to lists of strings.\<close>

definition hex_digit :: "nat \<Rightarrow> char" where
  "hex_digit d = (if d < 10 then char_of (48 + d) else char_of (87 + d))"

definition json_escape_char :: "char \<Rightarrow> string" where
  "json_escape_char c =
     (let n = (of_char c :: nat) in
      if n = 34 then [CHR 0x5C, CHR 0x22]
      else if n = 92 then [CHR 0x5C, CHR 0x5C]
      else if n = 8 then [CHR 0x5C, CHR ''b'']
      else if n = 12 then [CHR 0x5C, CHR ''f'']
      else if n = 10 then [CHR 0x5C, CHR ''n'']
      else if n = 13 then [CHR 0x5C, CHR ''r'']
      else if n = 9 then [CHR 0x5C, CHR ''t'']
      else if n < 32 \<or> 126 < n
        then [CHR 0x5C, CHR ''u'', CHR ''0'', CHR ''0'', hex_digit (n div 16), hex_digit (n mod 16)]
      else [c])"

definition json_string :: "string \<Rightarrow> string" where
  "json_string s = CHR 0x22 # concat (map json_escape_char s) @ [CHR 0x22]"

fun join :: "string \<Rightarrow> string list \<Rightarrow> string" where
  "join sep [] = []"
| "join sep [x] = x"
| "join sep (x # y # ys) = x @ sep @ join sep (y # ys)"

definition json_list :: "string list \<Rightarrow> string" where
  "json_list xs = ''['' @ join '', '' (map json_string xs) @ '']''"

definition json_item :: "string \<times> string list \<Rightarrow> string" where
  "json_item kv = json_string (fst kv) @ '': '' @ json_list (snd kv)"

definition json_dumps_sorted :: "(string, string list) dict \<Rightarrow> string" where
  "json_dumps_sorted d = ''{'' @ join '', '' (map json_item (sort_key fst d)) @ ''}''"

text \<open>\<open>{t: self.tables[t]["cols"] for t in sorted(self.tables.keys())}\<close>; every key
  looked up is a key of the catalog.\<close>

definition compact :: "(string, 'v table_meta) dict \<Rightarrow> (string, string list) dict" where
  "compact tbls =
     foldl (\<lambda>d t. case map_of tbls t of None \<Rightarrow> d | Some m \<Rightarrow> dict_set t (cols m) d)
       [] (sort (dict_keys tbls))"

text \<open>\<open>ExcelStore.catalog_signature\<close>; \<open>sha256_hex\<close> stands for
  \<open>hashlib.sha256(...).hexdigest()\<close>.\<close>

definition catalog_signature :: "(string \<Rightarrow> string) \<Rightarrow> 'v store \<Rightarrow> string" where
  "catalog_signature sha256_hex st = take 16 (sha256_hex (json_dumps_sorted (compact (tables st))))"

section \<open>Running and planning queries\<close>

definition wrap_limit :: "string \<Rightarrow> int \<Rightarrow> string" where
  "wrap_limit sql limit = ''SELECT * FROM ('' @ sql @ '') q LIMIT '' @ str_int limit"

text \<open>\<open>ExcelStore.run_sql\<close>: the statement handed to the connection is logged in
  \<open>executed\<close>.\<close>

definition run_sql ::
  "'v libs \<Rightarrow> 'v store \<Rightarrow> string \<Rightarrow> int \<Rightarrow> (error + 'v frame) \<times> 'v store" where
  "run_sql L st sql0 limit =
     (case validate_sql sql0 of
        Inl e \<Rightarrow> (Inl e, st)
      | Inr sql \<Rightarrow>
          let wrapped = wrap_limit sql limit
          in (run_query L (registered st) wrapped,
              st \<lparr> executed := executed st @ [wrapped] \<rparr>))"


record plan =
  sql :: string
  explanation :: string

text \<open>\<open>generate_sql\<close>: the planner's parsed reply is an input, or the error its call
  raised.\<close>

definition generate_sql :: "error + plan \<Rightarrow> error + plan" where
  "generate_sql reply =
     (case reply of
        Inl e \<Rightarrow> Inl e
      | Inr p \<Rightarrow>
          (case sanitize_sql (sql p) of
             Inl e \<Rightarrow> Inl e
           | Inr s \<Rightarrow> Inr \<lparr> sql = s, explanation = py_strip (explanation p) \<rparr>))"

section \<open>The feedback store\<close>

record feedback =
  row_id :: int
  question :: string
  catalog_sig :: string
  generated_sql :: string
  corrected_sql :: "string option"
  rating :: "int option"
  feedback_text :: "string option"
  created_at :: string

text \<open>The table \<open>feedback\<close> in rowid order.  \<open>add_record\<close> takes the value of
  \<open>CURRENT_TIMESTAMP\<close> as \<open>now\<close>.\<close>

definition add_record ::
  "feedback list \<Rightarrow> string \<Rightarrow> string \<Rightarrow> string \<Rightarrow> string \<Rightarrow> int \<times> feedback list" where
  "add_record db now q sig gen =
     (let new_id = fold max (map row_id db) 0 + 1
      in (new_id,
          db @ [\<lparr> row_id = new_id, question = q, catalog_sig = sig, generated_sql = gen,
                  corrected_sql = None, rating = None, feedback_text = None,
                  created_at = now \<rparr>]))"

text \<open>\<open>UPDATE feedback SET [rating=?,] feedback_text=?, corrected_sql=? WHERE id=?\<close>.\<close>

definition apply_feedback ::
  "int option \<Rightarrow> string option \<Rightarrow> string option \<Rightarrow> feedback \<Rightarrow> feedback" where
  "apply_feedback new_rating text corrected r =
     (case new_rating of
        None \<Rightarrow> r
      | Some v \<Rightarrow> r \<lparr> rating := Some v \<rparr>)
       \<lparr> feedback_text := text, corrected_sql := corrected \<rparr>"

definition add_feedback ::
  "feedback list \<Rightarrow> int \<Rightarrow> int option \<Rightarrow> string option \<Rightarrow> string option \<Rightarrow> feedback list" where
  "add_feedback db record_id new_rating text corrected =
     map (\<lambda>r. if row_id r = record_id then apply_feedback new_rating text corrected r else r) db"

text \<open>SQLite's \<open>TRIM(x)\<close> removes spaces from both ends; \<open>LIMIT n\<close> with a negative
  \<open>n\<close> puts no bound on the rows.\<close>

definition sqlite_trim :: "string \<Rightarrow> string" where
  "sqlite_trim s = strip_by (\<lambda>c. c = CHR '' '') s"

definition sqlite_limit :: "int \<Rightarrow> 'a list \<Rightarrow> 'a list" where
  "sqlite_limit n xs = (if n < 0 then xs else take (nat n) xs)"

fun insert_by :: "('a \<Rightarrow> 'a \<Rightarrow> bool) \<Rightarrow> 'a \<Rightarrow> 'a list \<Rightarrow> 'a list" where
  "insert_by le x [] = [x]"
| "insert_by le x (y # ys) = (if le x y then x # y # ys else y # insert_by le x ys)"

definition order_by :: "('a \<Rightarrow> 'a \<Rightarrow> bool) \<Rightarrow> 'a list \<Rightarrow> 'a list" where
  "order_by le xs = foldr (insert_by le) xs []"

text \<open>\<open>CASE WHEN corrected_sql IS NOT NULL AND TRIM(corrected_sql) <> '' THEN 0 ELSE 1 END\<close>.\<close>

definition correction_rank :: "feedback \<Rightarrow> nat" where
  "correction_rank r =
     (case corrected_sql r of
        None \<Rightarrow> 1
      | Some c \<Rightarrow> if sqlite_trim c \<noteq> [] then 0 else 1)"

text \<open>\<open>ORDER BY <rank>, created_at DESC\<close>: \<open>a\<close> may stand before \<open>b\<close>.\<close>

definition example_le :: "feedback \<Rightarrow> feedback \<Rightarrow> bool" where
  "example_le a b =
     (correction_rank a < correction_rank b
      \<or> (correction_rank a = correction_rank b \<and> created_at b \<le> created_at a))"

definition best_examples :: "feedback list \<Rightarrow> string \<Rightarrow> int \<Rightarrow> feedback list" where
  "best_examples db sig limit =
     sqlite_limit limit
       (order_by example_le (filter (\<lambda>r. catalog_sig r = sig \<and> rating r = Some 1) db))"

definition top_examples :: "feedback list \<Rightarrow> string \<Rightarrow> int \<Rightarrow> feedback list" where
  "top_examples db sig limit = best_examples db sig limit"

section \<open>The specification's wording\<close>

text \<open>The trimming as the specification words it: whitespace and at most one trailing
  statement terminator.\<close>

definition trim_one_terminator :: "string \<Rightarrow> string" where
  "trim_one_terminator s =
     (let t = py_strip s
      in py_strip (if t \<noteq> [] \<and> last t = CHR '';'' then butlast t else t))"





section \<open>Facts about strings\<close>

lemma py_in_sublist: "py_in b xs \<longleftrightarrow> sublist b xs"
  by (induction xs) (simp_all add: sublist_Cons_right)

lemma rstrip_by_Nil [simp]: "rstrip_by P [] = []"
  by (simp add: rstrip_by_def)

lemma rstrip_by_Cons:
  "rstrip_by P (x # xs) = (if rstrip_by P xs = [] \<and> P x then [] else x # rstrip_by P xs)"
  by (auto simp add: rstrip_by_def dropWhile_append dropWhile_eq_Nil_conv)

lemma rstrip_by_idem: "rstrip_by P (rstrip_by P s) = rstrip_by P s"
  by (simp add: rstrip_by_def)

lemma rstrip_by_fix: "s = [] \<or> \<not> P (last s) \<Longrightarrow> rstrip_by P s = s"
  by (cases s rule: rev_cases) (auto simp add: rstrip_by_def)

lemma rstrip_by_none: "\<forall>c\<in>set s. \<not> P c \<Longrightarrow> rstrip_by P s = s"
  by (rule rstrip_by_fix) (cases s rule: rev_cases, auto)

lemma rstrip_by_last: "rstrip_by P s \<noteq> [] \<Longrightarrow> \<not> P (last (rstrip_by P s))"
proof -
  assume a: "rstrip_by P s \<noteq> []"
  then have "dropWhile P (rev s) \<noteq> []" by (simp add: rstrip_by_def)
  then have "\<not> P (hd (dropWhile P (rev s)))" by (rule hd_dropWhile)
  with a show ?thesis by (simp add: rstrip_by_def last_rev)
qed

lemma lstrip_by_hd: "lstrip_by P s \<noteq> [] \<Longrightarrow> \<not> P (hd (lstrip_by P s))"
  unfolding lstrip_by_def by (rule hd_dropWhile)

lemma lstrip_by_fix: "s = [] \<or> \<not> P (hd s) \<Longrightarrow> lstrip_by P s = s"
  by (cases s) (auto simp add: lstrip_by_def)

lemma rstrip_by_hd: "rstrip_by P s \<noteq> [] \<Longrightarrow> hd (rstrip_by P s) = hd s"
  by (cases s) (auto simp add: rstrip_by_Cons split: if_splits)

lemma strip_by_hd: "strip_by P s \<noteq> [] \<Longrightarrow> \<not> P (hd (strip_by P s))"
proof -
  assume a: "strip_by P s \<noteq> []"
  then have ne: "lstrip_by P s \<noteq> []" by (auto simp add: strip_by_def)
  from a have "hd (strip_by P s) = hd (lstrip_by P s)"
    unfolding strip_by_def by (rule rstrip_by_hd)
  with lstrip_by_hd [OF ne] show ?thesis by simp
qed

lemma strip_by_last: "strip_by P s \<noteq> [] \<Longrightarrow> \<not> P (last (strip_by P s))"
  unfolding strip_by_def by (rule rstrip_by_last)

lemma strip_by_fix:
  "s = [] \<or> (\<not> P (hd s) \<and> \<not> P (last s)) \<Longrightarrow> strip_by P s = s"
  by (auto simp add: strip_by_def lstrip_by_fix rstrip_by_fix)

lemma strip_by_idem: "strip_by P (strip_by P s) = strip_by P s"
  by (rule strip_by_fix) (use strip_by_hd strip_by_last in blast)

lemma lstrip_by_decomp:
  "\<exists>l. s = l @ lstrip_by P s \<and> (\<forall>c\<in>set l. P c)"
proof -
  have "s = takeWhile P s @ lstrip_by P s" by (simp add: lstrip_by_def)
  moreover have "\<forall>c\<in>set (takeWhile P s). P c" by (auto dest: set_takeWhileD)
  ultimately show ?thesis by blast
qed

lemma rstrip_by_decomp:
  "\<exists>r. s = rstrip_by P s @ r \<and> (\<forall>c\<in>set r. P c)"
proof -
  have "rev (dropWhile P (rev s)) @ rev (takeWhile P (rev s)) = rev (takeWhile P (rev s) @ dropWhile P (rev s))"
    by (simp only: rev_append)
  then have "s = rstrip_by P s @ rev (takeWhile P (rev s))"
    by (simp add: rstrip_by_def)
  moreover have "\<forall>c\<in>set (rev (takeWhile P (rev s))). P c" by (auto dest: set_takeWhileD)
  ultimately show ?thesis by blast
qed

lemma strip_by_decomp:
  "\<exists>l r. s = l @ strip_by P s @ r \<and> (\<forall>c\<in>set l. P c) \<and> (\<forall>c\<in>set r. P c)"
proof -
  obtain l where l: "s = l @ lstrip_by P s" "\<forall>c\<in>set l. P c"
    using lstrip_by_decomp by blast
  obtain r where r: "lstrip_by P s = rstrip_by P (lstrip_by P s) @ r" "\<forall>c\<in>set r. P c"
    using rstrip_by_decomp by blast
  have "s = l @ strip_by P s @ r" using l(1) r(1) by (simp add: strip_by_def)
  with l(2) r(2) show ?thesis by blast
qed

lemma digit_char_digit: "d < 10 \<Longrightarrow> digit_char d \<in> set ''0123456789''"
proof -
  assume "d < 10"
  then have "d \<in> set [0,1,2,3,4,5,6,7,8,9]" by auto
  moreover have "\<forall>d\<in>set [0,1,2,3,4,5,6,7,8,9]. digit_char d \<in> set ''0123456789''"
    by code_simp
  ultimately show ?thesis by blast
qed

lemma str_nat_digits: "set (str_nat n) \<subseteq> set ''0123456789''"
proof (induction n rule: str_nat.induct)
  case (1 n)
  show ?case
  proof (cases "n < 10")
    case True
    then show ?thesis using digit_char_digit [of n] by (simp add: str_nat.simps [of n])
  next
    case False
    have "n mod 10 < 10" by simp
    then have "digit_char (n mod 10) \<in> set ''0123456789''" by (rule digit_char_digit)
    with False 1 show ?thesis by (simp add: str_nat.simps [of n])
  qed
qed

lemma str_nat_nonempty: "str_nat n \<noteq> []"
  by (simp add: str_nat.simps [of n])

lemma str_nat_last: "last (str_nat n) \<in> set ''0123456789''"
  using str_nat_digits [of n] str_nat_nonempty [of n] last_in_set by blast

lemma str_int_nonempty: "str_int i \<noteq> []"
  by (simp add: str_int_def str_nat_nonempty)

lemma str_int_all:
  assumes minus: "P (CHR ''-'')" and digits: "\<forall>c\<in>set ''0123456789''. P c"
  shows "\<forall>c\<in>set (str_int i). P c"
proof -
  have nat: "\<forall>c\<in>set (str_nat k). P c" for k
    using str_nat_digits [of k] digits by blast
  show ?thesis
  proof (cases "i < 0")
    case True
    then have "str_int i = CHR ''-'' # str_nat (nat (- i))" by (simp add: str_int_def)
    then show ?thesis using minus nat [of "nat (- i)"] by simp
  next
    case False
    then have "str_int i = str_nat (nat i)" by (simp add: str_int_def)
    then show ?thesis using nat [of "nat i"] by simp
  qed
qed

lemma str_int_plain:
  "\<forall>c\<in>set (str_int i). c \<noteq> CHR '';'' \<and> py_lower_char c \<noteq> CHR '' '' \<and> \<not> py_isspace c"
proof (rule str_int_all)
  show "CHR ''-'' \<noteq> CHR '';'' \<and> py_lower_char (CHR ''-'') \<noteq> CHR '' '' \<and> \<not> py_isspace (CHR ''-'')"
    by code_simp
  show "\<forall>c\<in>set ''0123456789''. c \<noteq> CHR '';'' \<and> py_lower_char c \<noteq> CHR '' '' \<and> \<not> py_isspace c"
    by code_simp
qed

lemma sublist_split:
  assumes "sublist b (xs @ c # ys)" and "c \<notin> set b"
  shows "sublist b xs \<or> sublist b ys"
proof -
  from assms(1) have "sublist b xs \<or> sublist b (c # ys)
      \<or> (\<exists>b1 b2. b = b1 @ b2 \<and> suffix b1 xs \<and> prefix b2 (c # ys))"
    by (simp only: sublist_append)
  then consider "sublist b xs" | "sublist b (c # ys)"
    | b1 b2 where "b = b1 @ b2" "suffix b1 xs" "prefix b2 (c # ys)" by blast
  then show ?thesis
  proof cases
    case 1 then show ?thesis by simp
  next
    case 2
    then have "prefix b (c # ys) \<or> sublist b ys" by (simp only: sublist_Cons_right)
    moreover have "b = []" if "prefix b (c # ys)"
      using that assms(2) by (cases b) auto
    ultimately show ?thesis by auto
  next
    case 3
    have "b2 = []" using 3(1,3) assms(2) by (cases b2) auto
    with 3 have "suffix b xs" by simp
    then show ?thesis by (auto simp add: suffix_def)
  qed
qed

lemma sublist_drop_tail:
  assumes "sublist b (xs @ ys)" and "b \<noteq> []" and "last b \<notin> set ys"
  shows "sublist b xs"
proof -
  from assms(1) have "sublist b xs \<or> sublist b ys
      \<or> (\<exists>b1 b2. b = b1 @ b2 \<and> suffix b1 xs \<and> prefix b2 ys)"
    by (simp only: sublist_append)
  then consider "sublist b xs" | "sublist b ys"
    | b1 b2 where "b = b1 @ b2" "suffix b1 xs" "prefix b2 ys" by blast
  then show ?thesis
  proof cases
    case 1 then show ?thesis .
  next
    case 2
    then have "set b \<subseteq> set ys" by (auto simp add: sublist_def)
    with assms(2,3) show ?thesis using last_in_set by blast
  next
    case 3
    have "b2 = []"
    proof (rule ccontr)
      assume ne: "b2 \<noteq> []"
      then have "last b = last b2" using 3(1) by simp
      moreover have "set b2 \<subseteq> set ys" using 3(3) by (auto simp add: prefix_def)
      ultimately show False using assms(3) ne last_in_set by fastforce
    qed
    with 3 have "suffix b xs" by simp
    then show ?thesis by (auto simp add: suffix_def)
  qed
qed

section \<open>The SQL safety gate: proofs\<close>

lemma trim_sql_fix:
  assumes "CHR '';'' \<notin> set (trim_sql s)"
  shows "trim_sql (trim_sql s) = trim_sql s"
proof -
  let ?t = "trim_sql s"
  have t: "?t = py_strip (py_rstrip_chars '';'' (py_strip s))" by (simp add: trim_sql_def)
  have 1: "py_strip ?t = ?t" unfolding t py_strip_def by (rule strip_by_idem)
  have 2: "py_rstrip_chars '';'' ?t = ?t"
    unfolding py_rstrip_chars_def using assms by (intro rstrip_by_none) auto
  show ?thesis
    using 1 2 by (simp add: trim_sql_def [of "trim_sql s"])
qed

lemma sql_gate_Inr_iff:
  "sql_gate m s = Inr t \<longleftrightarrow>
     t = trim_sql s \<and> CHR '';'' \<notin> set t
     \<and> (\<forall>b\<in>set banned. \<not> sublist b (py_lower t))
     \<and> (prefix ''select'' (py_lower t) \<or> prefix ''with'' (py_lower t))"
  by (auto simp add: sql_gate_def Let_def list_ex_iff py_in_sublist startswith_def)

lemma sql_gate_Inl_iff:
  "isl (sql_gate m s) \<longleftrightarrow>
     CHR '';'' \<in> set (trim_sql s)
     \<or> (\<exists>b\<in>set banned. sublist b (py_lower (trim_sql s)))
     \<or> \<not> (prefix ''select'' (py_lower (trim_sql s)) \<or> prefix ''with'' (py_lower (trim_sql s)))"
  by (auto simp add: sql_gate_def Let_def list_ex_iff py_in_sublist startswith_def)

lemma sql_gate_fixpoint:
  assumes "sql_gate m s = Inr t"
  shows "sql_gate m' t = Inr t"
proof -
  from assms sql_gate_Inr_iff [of m s t] have t: "t = trim_sql s" and semi: "CHR '';'' \<notin> set t"
    and rest: "(\<forall>b\<in>set banned. \<not> sublist b (py_lower t))"
      "prefix ''select'' (py_lower t) \<or> prefix ''with'' (py_lower t)"
    by blast+
  from t semi have "trim_sql t = t" using trim_sql_fix by simp
  with semi rest show ?thesis by (simp add: sql_gate_Inr_iff)
qed

text \<open>
  Claim C10.  SQL validation is idempotent: whenever \<open>_validate_sql\<close> (or
  \<open>_sanitize_sql\<close>) succeeds on a string, both succeed again on the string returned
  and return it unchanged, so every successful output is a fixed point of the validator.
\<close>

theorem validate_sql_idempotent:
  assumes "validate_sql s = Inr t \<or> sanitize_sql s = Inr t"
  shows "validate_sql t = Inr t \<and> sanitize_sql t = Inr t"
  using assms unfolding validate_sql_def sanitize_sql_def
  by (blast intro: sql_gate_fixpoint)

text \<open>The theorem at a statement with surrounding blanks and a trailing terminator.\<close>

theorem validate_sql_idempotent_witness:
  "validate_sql ''  select * from t ; '' = Inr ''select * from t''
   \<and> validate_sql ''select * from t'' = Inr ''select * from t''
   \<and> sanitize_sql ''select * from t'' = Inr ''select * from t''"
proof -
  have h: "validate_sql ''  select * from t ; '' = Inr ''select * from t''" by code_simp
  from validate_sql_idempotent [of "''  select * from t ; ''" "''select * from t''"] h
  show ?thesis by blast
qed


section \<open>What the validators trim\<close>

lemma trim_sql_shape:
  "\<exists>l ws semis ws'. s = l @ trim_sql s @ ws @ semis @ ws'
     \<and> (\<forall>c\<in>set l. py_isspace c) \<and> (\<forall>c\<in>set ws. py_isspace c)
     \<and> (\<forall>c\<in>set semis. c = CHR '';'') \<and> (\<forall>c\<in>set ws'. py_isspace c)
     \<and> (ws = [] \<longrightarrow> trim_sql s = [] \<or> last (trim_sql s) \<noteq> CHR '';'')
     \<and> (semis = [] \<longrightarrow> ws = [])
     \<and> (trim_sql s = [] \<longrightarrow> ws = [])"
proof -
  define u where "u = strip_by py_isspace s"
  define v where "v = rstrip_by (\<lambda>c. c \<in> set '';'') u"
  define t where "t = rstrip_by py_isspace v"
  obtain l1 r1 where s: "s = l1 @ u @ r1" and l1: "\<forall>c\<in>set l1. py_isspace c"
    and r1: "\<forall>c\<in>set r1. py_isspace c"
    unfolding u_def using strip_by_decomp [of s py_isspace] by blast
  obtain r2 where u: "u = v @ r2" and r2: "\<forall>c\<in>set r2. c \<in> set '';''"
    unfolding v_def using rstrip_by_decomp [of u "\<lambda>c. c \<in> set '';''"] by blast
  obtain r3 where v: "v = t @ r3" and r3: "\<forall>c\<in>set r3. py_isspace c"
    unfolding t_def using rstrip_by_decomp [of v py_isspace] by blast
  have vlast: "v = [] \<or> last v \<noteq> CHR '';''"
    unfolding v_def using rstrip_by_last [of "\<lambda>c. c \<in> set '';''" u] by auto
  have vhd: "v = [] \<or> \<not> py_isspace (hd v)"
  proof (cases "v = []")
    case False
    then have "hd v = hd u" unfolding v_def by (rule rstrip_by_hd)
    moreover from False u have "u \<noteq> []" by auto
    then have "\<not> py_isspace (hd u)" unfolding u_def by (rule strip_by_hd)
    ultimately show ?thesis by simp
  qed simp
  then have "lstrip_by py_isspace v = v" by (rule lstrip_by_fix)
  then have tv: "strip_by py_isspace v = t" by (simp add: strip_by_def t_def)
  have "trim_sql s = strip_by py_isspace v"
    unfolding trim_sql_def py_strip_def py_rstrip_chars_def v_def u_def by (rule refl)
  with tv have t: "trim_sql s = t" by simp
  have e1: "r3 = []" if "r2 = []"
  proof -
    from that u have "v = u" by simp
    then have "t = strip_by py_isspace u" using tv by simp
    also have "\<dots> = u" unfolding u_def by (rule strip_by_idem)
    finally have "t = v" using \<open>v = u\<close> by simp
    with v show ?thesis by simp
  qed
  have e2: "r3 = []" if "t = []"
  proof (rule ccontr)
    assume ne: "r3 \<noteq> []"
    from that v have "v = r3" by simp
    with ne r3 have "v \<noteq> []" "py_isspace (hd v)" by auto
    with vhd show False by blast
  qed
  have d: "t = [] \<or> last t \<noteq> CHR '';''" if "r3 = []"
    using that v vlast by simp
  have "s = l1 @ t @ r3 @ r2 @ r1" using s u v by simp
  moreover have "\<forall>c\<in>set r2. c = CHR '';''" using r2 by simp
  ultimately show ?thesis
    unfolding t using l1 r1 r3 e1 e2 d by blast
qed


lemma lstrip_by_append: "\<forall>c\<in>set l. P c \<Longrightarrow> lstrip_by P (l @ x) = lstrip_by P x"
  by (simp add: lstrip_by_def dropWhile_append2)

lemma rstrip_by_append: "\<forall>c\<in>set r. P c \<Longrightarrow> rstrip_by P (x @ r) = rstrip_by P x"
proof -
  assume "\<forall>c\<in>set r. P c"
  then have "dropWhile P (rev r @ rev x) = dropWhile P (rev x)"
    by (intro dropWhile_append2) simp
  then show ?thesis by (simp add: rstrip_by_def)
qed

lemma strip_by_core:
  assumes "\<forall>c\<in>set l. P c" and "\<forall>c\<in>set r. P c"
    and "x = [] \<or> (\<not> P (hd x) \<and> \<not> P (last x))"
  shows "strip_by P (l @ x @ r) = x"
proof (cases "x = []")
  case True
  then have "\<forall>c\<in>set (l @ x @ r). P c" using assms(1,2) by auto
  then have "lstrip_by P (l @ x @ r) = []" by (simp add: lstrip_by_def)
  with True show ?thesis by (simp add: strip_by_def)
next
  case False
  have "lstrip_by P (l @ x @ r) = lstrip_by P (x @ r)"
    using assms(1) by (rule lstrip_by_append)
  also from False assms(3) have "\<dots> = x @ r" by (intro lstrip_by_fix) simp
  finally have "strip_by P (l @ x @ r) = rstrip_by P (x @ r)"
    by (simp add: strip_by_def)
  also have "\<dots> = rstrip_by P x" using assms(2) by (rule rstrip_by_append)
  also have "\<dots> = x" using assms(3) by (intro rstrip_by_fix) auto
  finally show ?thesis .
qed

lemma trim_unique:
  assumes s: "s = l @ t @ ws @ semis @ ws'"
    and sp: "\<forall>c\<in>set l. P c" "\<forall>c\<in>set ws. P c" "\<forall>c\<in>set ws'. P c"
    and semis: "\<forall>c\<in>set semis. Q c"
    and disj: "\<And>c. Q c \<Longrightarrow> \<not> P c"
    and stripped: "t = [] \<or> (\<not> P (hd t) \<and> \<not> P (last t))"
    and maximal: "ws = [] \<longrightarrow> t = [] \<or> \<not> Q (last t)"
    and tight: "semis = [] \<longrightarrow> ws = []" "t = [] \<longrightarrow> ws = []"
  shows "strip_by P (rstrip_by Q (strip_by P s)) = t"
proof -
  let ?core = "t @ ws @ semis"
  have core: "?core = [] \<or> (\<not> P (hd ?core) \<and> \<not> P (last ?core))"
  proof (cases "t = []")
    case True
    with tight(2) have ws: "ws = []" by simp
    show ?thesis
    proof (cases "semis = []")
      case True
      with \<open>t = []\<close> ws show ?thesis by simp
    next
      case False
      then have "hd semis \<in> set semis" "last semis \<in> set semis" by simp_all
      with semis disj have "\<not> P (hd semis)" "\<not> P (last semis)" by blast+
      with \<open>t = []\<close> ws show ?thesis by simp
    qed
  next
    case False
    with stripped have h: "\<not> P (hd ?core)" by simp
    have "\<not> P (last ?core)"
    proof (cases "semis = []")
      case True
      with tight(1) stripped False show ?thesis by simp
    next
      case False
      then have "last semis \<in> set semis" by simp
      with semis disj have "\<not> P (last semis)" by blast
      with False show ?thesis by simp
    qed
    with h show ?thesis by blast
  qed
  have "strip_by P s = strip_by P (l @ ?core @ ws')" unfolding s by simp
  also have "\<dots> = ?core" using sp(1) sp(3) core by (rule strip_by_core)
  finally have 1: "strip_by P s = (t @ ws) @ semis" by simp
  have "rstrip_by Q ((t @ ws) @ semis) = rstrip_by Q (t @ ws)"
    using semis by (rule rstrip_by_append)
  also have "\<dots> = t @ ws"
  proof (rule rstrip_by_fix)
    show "t @ ws = [] \<or> \<not> Q (last (t @ ws))"
    proof (cases "ws = []")
      case True
      with maximal show ?thesis by auto
    next
      case False
      then have "last ws \<in> set ws" by simp
      with sp(2) have "P (last ws)" by blast
      with disj have "\<not> Q (last ws)" by blast
      with False show ?thesis by simp
    qed
  qed
  finally have 2: "rstrip_by Q (strip_by P s) = [] @ t @ ws" using 1 by simp
  have e: "\<forall>c\<in>set ([] :: string). P c" by simp
  have "strip_by P ([] @ t @ ws) = t"
    using e sp(2) stripped by (rule strip_by_core)
  with 2 show ?thesis by simp
qed

lemma trim_sql_unique:
  assumes "s = l @ t @ ws @ semis @ ws'"
    and "\<forall>c\<in>set l. py_isspace c" "\<forall>c\<in>set ws. py_isspace c" "\<forall>c\<in>set ws'. py_isspace c"
    and "\<forall>c\<in>set semis. c = CHR '';''"
    and "t = [] \<or> (\<not> py_isspace (hd t) \<and> \<not> py_isspace (last t))"
    and "ws = [] \<longrightarrow> t = [] \<or> last t \<noteq> CHR '';''"
    and "semis = [] \<longrightarrow> ws = []" "t = [] \<longrightarrow> ws = []"
  shows "trim_sql s = t"
proof -
  have nsp: "\<not> py_isspace (CHR '';'')" by code_simp
  have q: "(c \<in> set '';'') = (c = CHR '';'')" for c by simp
  have "strip_by py_isspace (rstrip_by (\<lambda>c. c \<in> set '';'') (strip_by py_isspace s)) = t"
  proof (rule trim_unique [OF assms(1-4)])
    show "\<forall>c\<in>set semis. c \<in> set '';''" using assms(5) by (simp only: q)
    show "\<not> py_isspace c" if "c \<in> set '';''" for c using that nsp by simp
    show "t = [] \<or> (\<not> py_isspace (hd t) \<and> \<not> py_isspace (last t))" by (rule assms(6))
    show "ws = [] \<longrightarrow> t = [] \<or> \<not> last t \<in> set '';''" using assms(7) by (simp only: q)
    show "semis = [] \<longrightarrow> ws = []" by (rule assms(8))
    show "t = [] \<longrightarrow> ws = []" by (rule assms(9))
  qed
  then show ?thesis by (simp only: trim_sql_def py_strip_def py_rstrip_chars_def)
qed

section \<open>The policy of the safety gate\<close>

lemma banned_set:
  "set banned = set [''drop '', ''delete '', ''update '', ''insert '', ''create '', ''alter '',
                     ''truncate '', ''grant '', ''revoke '']"
  unfolding banned_def by (rule refl)

lemma sql_gate_Inl_msg:
  "sql_gate m s = Inl e \<longleftrightarrow>
     (CHR '';'' \<in> set (trim_sql s) \<and> e = ValueError m)
     \<or> (CHR '';'' \<notin> set (trim_sql s) \<and> (\<exists>b\<in>set banned. sublist b (py_lower (trim_sql s)))
         \<and> e = ValueError ''Destructive SQL is not allowed.'')
     \<or> (CHR '';'' \<notin> set (trim_sql s) \<and> \<not> (\<exists>b\<in>set banned. sublist b (py_lower (trim_sql s)))
         \<and> \<not> (prefix ''select'' (py_lower (trim_sql s)) \<or> prefix ''with'' (py_lower (trim_sql s)))
         \<and> e = ValueError ''SQL must start with SELECT or WITH.'')"
proof -
  let ?t = "trim_sql s"
  consider (semi) "CHR '';'' \<in> set ?t"
    | (ban) "CHR '';'' \<notin> set ?t" "\<exists>b\<in>set banned. sublist b (py_lower ?t)"
    | (start) "CHR '';'' \<notin> set ?t" "\<not> (\<exists>b\<in>set banned. sublist b (py_lower ?t))"
        "\<not> (prefix ''select'' (py_lower ?t) \<or> prefix ''with'' (py_lower ?t))"
    | (ok) "CHR '';'' \<notin> set ?t" "\<not> (\<exists>b\<in>set banned. sublist b (py_lower ?t))"
        "prefix ''select'' (py_lower ?t) \<or> prefix ''with'' (py_lower ?t)"
    by blast
  then show ?thesis
  proof cases
    case semi
    then have "sql_gate m s = Inl (ValueError m)" by (simp add: sql_gate_def)
    with semi show ?thesis by (simp add: eq_commute)
  next
    case ban
    then have "sql_gate m s = Inl (ValueError ''Destructive SQL is not allowed.'')"
      by (simp add: sql_gate_def Let_def list_ex_iff py_in_sublist)
    with ban show ?thesis by (simp add: eq_commute)
  next
    case start
    then have "sql_gate m s = Inl (ValueError ''SQL must start with SELECT or WITH.'')"
      by (simp add: sql_gate_def Let_def list_ex_iff py_in_sublist startswith_def)
    with start show ?thesis by (simp add: eq_commute)
  next
    case ok
    then have "sql_gate m s = Inr ?t"
      by (simp add: sql_gate_def Let_def list_ex_iff py_in_sublist startswith_def)
    with ok show ?thesis by simp
  qed
qed

lemma trim_sql_stripped:
  "trim_sql s = [] \<or> (\<not> py_isspace (hd (trim_sql s)) \<and> \<not> py_isspace (last (trim_sql s)))"
  unfolding trim_sql_def py_strip_def using strip_by_hd strip_by_last by blast

lemma trim_sql_iff:
  "t = trim_sql s \<longleftrightarrow>
      (\<exists>l ws semis ws'. s = l @ t @ ws @ semis @ ws'
         \<and> (\<forall>c\<in>set l. py_isspace c) \<and> (\<forall>c\<in>set ws. py_isspace c)
         \<and> (\<forall>c\<in>set semis. c = CHR '';'') \<and> (\<forall>c\<in>set ws'. py_isspace c)
         \<and> (t = [] \<or> (\<not> py_isspace (hd t) \<and> \<not> py_isspace (last t)))
         \<and> (ws = [] \<longrightarrow> t = [] \<or> last t \<noteq> CHR '';'')
         \<and> (semis = [] \<longrightarrow> ws = []) \<and> (t = [] \<longrightarrow> ws = []))"
proof
  assume "t = trim_sql s"
  with trim_sql_shape [of s] trim_sql_stripped [of s]
  show "\<exists>l ws semis ws'. s = l @ t @ ws @ semis @ ws'
         \<and> (\<forall>c\<in>set l. py_isspace c) \<and> (\<forall>c\<in>set ws. py_isspace c)
         \<and> (\<forall>c\<in>set semis. c = CHR '';'') \<and> (\<forall>c\<in>set ws'. py_isspace c)
         \<and> (t = [] \<or> (\<not> py_isspace (hd t) \<and> \<not> py_isspace (last t)))
         \<and> (ws = [] \<longrightarrow> t = [] \<or> last t \<noteq> CHR '';'')
         \<and> (semis = [] \<longrightarrow> ws = []) \<and> (t = [] \<longrightarrow> ws = [])"
    by simp
next
  assume "\<exists>l ws semis ws'. s = l @ t @ ws @ semis @ ws'
         \<and> (\<forall>c\<in>set l. py_isspace c) \<and> (\<forall>c\<in>set ws. py_isspace c)
         \<and> (\<forall>c\<in>set semis. c = CHR '';'') \<and> (\<forall>c\<in>set ws'. py_isspace c)
         \<and> (t = [] \<or> (\<not> py_isspace (hd t) \<and> \<not> py_isspace (last t)))
         \<and> (ws = [] \<longrightarrow> t = [] \<or> last t \<noteq> CHR '';'')
         \<and> (semis = [] \<longrightarrow> ws = []) \<and> (t = [] \<longrightarrow> ws = [])"
  then obtain l ws semis ws' where "s = l @ t @ ws @ semis @ ws'"
    "\<forall>c\<in>set l. py_isspace c" "\<forall>c\<in>set ws. py_isspace c" "\<forall>c\<in>set ws'. py_isspace c"
    "\<forall>c\<in>set semis. c = CHR '';''"
    "t = [] \<or> (\<not> py_isspace (hd t) \<and> \<not> py_isspace (last t))"
    "ws = [] \<longrightarrow> t = [] \<or> last t \<noteq> CHR '';''"
    "semis = [] \<longrightarrow> ws = []" "t = [] \<longrightarrow> ws = []"
    by (elim exE conjE)
  then have "trim_sql s = t" by (rule trim_sql_unique)
  then show "t = trim_sql s" by (rule sym)
qed

lemma gate_examples:
  "py_lower ''ABCDEFGHIJKLMNOPQRSTUVWXYZ'' = ''abcdefghijklmnopqrstuvwxyz''"
  "py_lower ''abcdefghijklmnopqrstuvwxyz 0123456789_*=(),;'' = ''abcdefghijklmnopqrstuvwxyz 0123456789_*=(),;''"
  "validate_sql ''SELECT 1'' = Inr ''SELECT 1''"
  "validate_sql ''select * from t; drop table t'' = Inl (ValueError ''Only one SQL statement is allowed (no semicolons).'')"
  "validate_sql ''DROP TABLE t'' = Inl (ValueError ''Destructive SQL is not allowed.'')"
  "validate_sql ''UPDATE t SET x=1'' = Inl (ValueError ''Destructive SQL is not allowed.'')"
  "validate_sql ''with c as (select 1) select * from c''
        = Inr ''with c as (select 1) select * from c''"
  "validate_sql ''  select * from t  '' = Inr ''select * from t''"
  "(\<forall>k\<in>set [''DROP '', ''Delete '', ''update '', ''INSERT '', ''Create '', ''ALTER '',
            ''truncate '', ''Grant '', ''REVOKE ''].
        validate_sql (''select 1 from t where '' @ k @ ''x'') = Inl (ValueError ''Destructive SQL is not allowed.''))"
  "validate_sql ''select updated_at, dropped from t;;;'' = Inr ''select updated_at, dropped from t''"
  "validate_sql ''select 1 ; ;'' = Inl (ValueError ''Only one SQL statement is allowed (no semicolons).'')"
  "validate_sql ''explain select 1'' = Inl (ValueError ''SQL must start with SELECT or WITH.'')"
  by code_simp+

text \<open>
  Claim C2, as amended.  The text the validator works on is fixed by the input alone: the
  input is leading whitespace, that text, and a tail made of whitespace, a run of
  statement terminators and whitespace, where the text has no whitespace at either end
  and the run of terminators is the whole run (the text ends in no terminator unless
  whitespace separates it from the run): every trailing terminator is trimmed, not at
  most one.  The validator returns that text exactly when it holds no terminator, its
  lower-cased form holds none of the nine keyword-prefixes \<open>drop\<close>, \<open>delete\<close>,
  \<open>update\<close>, \<open>insert\<close>, \<open>create\<close>, \<open>alter\<close>, \<open>truncate\<close>, \<open>grant\<close>,
  \<open>revoke\<close> followed by a space, and begins with \<open>select\<close> or \<open>with\<close>.  Otherwise
  it raises, in this order, for a remaining terminator, for a keyword-prefix, for the
  start.  \<open>_sanitize_sql\<close> returns the same text on the same inputs and raises the same
  errors but for the wording of the first.  The six examples of the specification
  behave as listed, each keyword is refused in any case of letters, a keyword with no
  space after it is not refused, and a terminator inside the statement is.
\<close>

theorem validate_sql_policy:
  "(t = trim_sql s \<longleftrightarrow>
      (\<exists>l ws semis ws'. s = l @ t @ ws @ semis @ ws'
         \<and> (\<forall>c\<in>set l. py_isspace c) \<and> (\<forall>c\<in>set ws. py_isspace c)
         \<and> (\<forall>c\<in>set semis. c = CHR '';'') \<and> (\<forall>c\<in>set ws'. py_isspace c)
         \<and> (t = [] \<or> (\<not> py_isspace (hd t) \<and> \<not> py_isspace (last t)))
         \<and> (ws = [] \<longrightarrow> t = [] \<or> last t \<noteq> CHR '';'')
         \<and> (semis = [] \<longrightarrow> ws = []) \<and> (t = [] \<longrightarrow> ws = [])))
   \<and> (validate_sql s = Inr r \<longleftrightarrow>
        r = trim_sql s \<and> CHR '';'' \<notin> set r
        \<and> \<not> (\<exists>b\<in>set [''drop '', ''delete '', ''update '', ''insert '', ''create '', ''alter '',
            ''truncate '', ''grant '', ''revoke '']. sublist b (py_lower r))
        \<and> (prefix ''select'' (py_lower r) \<or> prefix ''with'' (py_lower r)))
   \<and> (validate_sql s = Inl e \<longleftrightarrow>
        (CHR '';'' \<in> set (trim_sql s) \<and> e = ValueError ''Only one SQL statement is allowed (no semicolons).'')
        \<or> (CHR '';'' \<notin> set (trim_sql s)
            \<and> (\<exists>b\<in>set [''drop '', ''delete '', ''update '', ''insert '', ''create '', ''alter '',
            ''truncate '', ''grant '', ''revoke '']. sublist b (py_lower (trim_sql s)))
            \<and> e = ValueError ''Destructive SQL is not allowed.'')
        \<or> (CHR '';'' \<notin> set (trim_sql s)
            \<and> \<not> (\<exists>b\<in>set [''drop '', ''delete '', ''update '', ''insert '', ''create '', ''alter '',
            ''truncate '', ''grant '', ''revoke '']. sublist b (py_lower (trim_sql s)))
            \<and> \<not> (prefix ''select'' (py_lower (trim_sql s)) \<or> prefix ''with'' (py_lower (trim_sql s)))
            \<and> e = ValueError ''SQL must start with SELECT or WITH.''))
   \<and> (sanitize_sql s = Inr r \<longleftrightarrow> validate_sql s = Inr r)
   \<and> (sanitize_sql s = Inl e \<longleftrightarrow>
        (CHR '';'' \<in> set (trim_sql s) \<and> e = ValueError ''SQL contains a semicolon; only one statement is allowed.'')
        \<or> (CHR '';'' \<notin> set (trim_sql s)
            \<and> (\<exists>b\<in>set [''drop '', ''delete '', ''update '', ''insert '', ''create '', ''alter '',
            ''truncate '', ''grant '', ''revoke '']. sublist b (py_lower (trim_sql s)))
            \<and> e = ValueError ''Destructive SQL is not allowed.'')
        \<or> (CHR '';'' \<notin> set (trim_sql s)
            \<and> \<not> (\<exists>b\<in>set [''drop '', ''delete '', ''update '', ''insert '', ''create '', ''alter '',
            ''truncate '', ''grant '', ''revoke '']. sublist b (py_lower (trim_sql s)))
            \<and> \<not> (prefix ''select'' (py_lower (trim_sql s)) \<or> prefix ''with'' (py_lower (trim_sql s)))
            \<and> e = ValueError ''SQL must start with SELECT or WITH.''))
   \<and> py_lower ''ABCDEFGHIJKLMNOPQRSTUVWXYZ'' = ''abcdefghijklmnopqrstuvwxyz''
   \<and> py_lower ''abcdefghijklmnopqrstuvwxyz 0123456789_*=(),;'' = ''abcdefghijklmnopqrstuvwxyz 0123456789_*=(),;''
   \<and> validate_sql ''SELECT 1'' = Inr ''SELECT 1''
   \<and> validate_sql ''select * from t; drop table t'' = Inl (ValueError ''Only one SQL statement is allowed (no semicolons).'')
   \<and> validate_sql ''DROP TABLE t'' = Inl (ValueError ''Destructive SQL is not allowed.'')
   \<and> validate_sql ''UPDATE t SET x=1'' = Inl (ValueError ''Destructive SQL is not allowed.'')
   \<and> validate_sql ''with c as (select 1) select * from c''
        = Inr ''with c as (select 1) select * from c''
   \<and> validate_sql ''  select * from t  '' = Inr ''select * from t''
   \<and> (\<forall>k\<in>set [''DROP '', ''Delete '', ''update '', ''INSERT '', ''Create '', ''ALTER '',
            ''truncate '', ''Grant '', ''REVOKE ''].
        validate_sql (''select 1 from t where '' @ k @ ''x'') = Inl (ValueError ''Destructive SQL is not allowed.''))
   \<and> validate_sql ''select updated_at, dropped from t;;;'' = Inr ''select updated_at, dropped from t''
   \<and> validate_sql ''select 1 ; ;'' = Inl (ValueError ''Only one SQL statement is allowed (no semicolons).'')
   \<and> validate_sql ''explain select 1'' = Inl (ValueError ''SQL must start with SELECT or WITH.'')"
proof -
  have c1: "t = trim_sql s \<longleftrightarrow>
      (\<exists>l ws semis ws'. s = l @ t @ ws @ semis @ ws'
         \<and> (\<forall>c\<in>set l. py_isspace c) \<and> (\<forall>c\<in>set ws. py_isspace c)
         \<and> (\<forall>c\<in>set semis. c = CHR '';'') \<and> (\<forall>c\<in>set ws'. py_isspace c)
         \<and> (t = [] \<or> (\<not> py_isspace (hd t) \<and> \<not> py_isspace (last t)))
         \<and> (ws = [] \<longrightarrow> t = [] \<or> last t \<noteq> CHR '';'')
         \<and> (semis = [] \<longrightarrow> ws = []) \<and> (t = [] \<longrightarrow> ws = []))"
    by (rule trim_sql_iff)
  have c2: "validate_sql s = Inr r \<longleftrightarrow>
        r = trim_sql s \<and> CHR '';'' \<notin> set r
        \<and> \<not> (\<exists>b\<in>set [''drop '', ''delete '', ''update '', ''insert '', ''create '', ''alter '',
            ''truncate '', ''grant '', ''revoke '']. sublist b (py_lower r))
        \<and> (prefix ''select'' (py_lower r) \<or> prefix ''with'' (py_lower r))"
    unfolding validate_sql_def sql_gate_Inr_iff banned_set by simp
  have c3: "validate_sql s = Inl e \<longleftrightarrow>
        (CHR '';'' \<in> set (trim_sql s) \<and> e = ValueError ''Only one SQL statement is allowed (no semicolons).'')
        \<or> (CHR '';'' \<notin> set (trim_sql s)
            \<and> (\<exists>b\<in>set [''drop '', ''delete '', ''update '', ''insert '', ''create '', ''alter '',
            ''truncate '', ''grant '', ''revoke '']. sublist b (py_lower (trim_sql s)))
            \<and> e = ValueError ''Destructive SQL is not allowed.'')
        \<or> (CHR '';'' \<notin> set (trim_sql s)
            \<and> \<not> (\<exists>b\<in>set [''drop '', ''delete '', ''update '', ''insert '', ''create '', ''alter '',
            ''truncate '', ''grant '', ''revoke '']. sublist b (py_lower (trim_sql s)))
            \<and> \<not> (prefix ''select'' (py_lower (trim_sql s)) \<or> prefix ''with'' (py_lower (trim_sql s)))
            \<and> e = ValueError ''SQL must start with SELECT or WITH.'')"
    unfolding validate_sql_def sql_gate_Inl_msg banned_set by (rule refl)
  have c4: "sanitize_sql s = Inr r \<longleftrightarrow> validate_sql s = Inr r"
    unfolding sanitize_sql_def validate_sql_def by (simp only: sql_gate_Inr_iff)
  have c5: "sanitize_sql s = Inl e \<longleftrightarrow>
        (CHR '';'' \<in> set (trim_sql s) \<and> e = ValueError ''SQL contains a semicolon; only one statement is allowed.'')
        \<or> (CHR '';'' \<notin> set (trim_sql s)
            \<and> (\<exists>b\<in>set [''drop '', ''delete '', ''update '', ''insert '', ''create '', ''alter '',
            ''truncate '', ''grant '', ''revoke '']. sublist b (py_lower (trim_sql s)))
            \<and> e = ValueError ''Destructive SQL is not allowed.'')
        \<or> (CHR '';'' \<notin> set (trim_sql s)
            \<and> \<not> (\<exists>b\<in>set [''drop '', ''delete '', ''update '', ''insert '', ''create '', ''alter '',
            ''truncate '', ''grant '', ''revoke '']. sublist b (py_lower (trim_sql s)))
            \<and> \<not> (prefix ''select'' (py_lower (trim_sql s)) \<or> prefix ''with'' (py_lower (trim_sql s)))
            \<and> e = ValueError ''SQL must start with SELECT or WITH.'')"
    unfolding sanitize_sql_def sql_gate_Inl_msg banned_set by (rule refl)
  from c1 c2 c3 c4 c5 gate_examples show ?thesis
    by (intro conjI)
qed

text \<open>The theorem at a statement with three trailing terminators: the decomposition
  fixes the trimmed text, and the three tests let it pass.\<close>

theorem validate_sql_policy_witness:
  "trim_sql ''  Select * from t ;;;  '' = ''Select * from t''
   \<and> validate_sql ''  Select * from t ;;;  '' = Inr ''Select * from t''
   \<and> sanitize_sql ''  Select * from t ;;;  '' = Inr ''Select * from t''"
proof -
  note P = validate_sql_policy [where s = "''  Select * from t ;;;  ''"
      and t = "''Select * from t''" and r = "''Select * from t''"]
  have "''  Select * from t ;;;  '' = ''  '' @ ''Select * from t'' @ '' '' @ '';;;'' @ ''  ''
         \<and> (\<forall>c\<in>set ''  ''. py_isspace c) \<and> (\<forall>c\<in>set '' ''. py_isspace c)
         \<and> (\<forall>c\<in>set '';;;''. c = CHR '';'') \<and> (\<forall>c\<in>set ''  ''. py_isspace c)
         \<and> (''Select * from t'' = [] \<or> (\<not> py_isspace (hd ''Select * from t'')
              \<and> \<not> py_isspace (last ''Select * from t'')))
         \<and> ('' '' = [] \<longrightarrow> ''Select * from t'' = [] \<or> last ''Select * from t'' \<noteq> CHR '';'')
         \<and> ('';;;'' = [] \<longrightarrow> '' '' = []) \<and> (''Select * from t'' = [] \<longrightarrow> '' '' = [])"
    by code_simp
  then have "\<exists>l ws semis ws'. ''  Select * from t ;;;  '' = l @ ''Select * from t'' @ ws @ semis @ ws'
         \<and> (\<forall>c\<in>set l. py_isspace c) \<and> (\<forall>c\<in>set ws. py_isspace c)
         \<and> (\<forall>c\<in>set semis. c = CHR '';'') \<and> (\<forall>c\<in>set ws'. py_isspace c)
         \<and> (''Select * from t'' = [] \<or> (\<not> py_isspace (hd ''Select * from t'')
              \<and> \<not> py_isspace (last ''Select * from t'')))
         \<and> (ws = [] \<longrightarrow> ''Select * from t'' = [] \<or> last ''Select * from t'' \<noteq> CHR '';'')
         \<and> (semis = [] \<longrightarrow> ws = []) \<and> (''Select * from t'' = [] \<longrightarrow> ws = [])"
    by (intro exI)
  with P [THEN conjunct1]
  have t: "''Select * from t'' = trim_sql ''  Select * from t ;;;  ''" by (rule iffD2)
  have "CHR '';'' \<notin> set ''Select * from t''" by code_simp
  moreover have "\<not> (\<exists>b\<in>set [''drop '', ''delete '', ''update '', ''insert '', ''create '',
      ''alter '', ''truncate '', ''grant '', ''revoke '']. sublist b (py_lower ''Select * from t''))"
    by code_simp
  moreover have "prefix ''select'' (py_lower ''Select * from t'')
      \<or> prefix ''with'' (py_lower ''Select * from t'')" by code_simp
  ultimately have v: "validate_sql ''  Select * from t ;;;  '' = Inr ''Select * from t''"
    using t P [THEN conjunct2, THEN conjunct1] by blast
  with P [THEN conjunct2, THEN conjunct2, THEN conjunct2, THEN conjunct1]
  have "sanitize_sql ''  Select * from t ;;;  '' = Inr ''Select * from t''" by (rule iffD2)
  with t v show ?thesis by simp
qed

text \<open>Claim C2 as stated fails: with at most one trailing terminator trimmed,
  \<open>SELECT 1;;\<close> keeps a terminator and would be refused, yet the validator strips
  both and accepts it.\<close>

theorem trims_every_trailing_terminator:
  "validate_sql ''SELECT 1;;'' = Inr ''SELECT 1''
   \<and> CHR '';'' \<in> set (trim_one_terminator ''SELECT 1;;'')"
  by code_simp

section \<open>Feedback updates\<close>

lemma add_feedback_length: "length (add_feedback db rid rt tx cs) = length db"
  by (simp add: add_feedback_def)

lemma add_feedback_nth:
  assumes "i < length db"
  shows "add_feedback db rid rt tx cs ! i =
           (if row_id (db ! i) = rid then apply_feedback rt tx cs (db ! i) else db ! i)"
  using assms by (simp add: add_feedback_def)

lemma add_feedback_no_match:
  assumes "\<forall>r\<in>set db. row_id r \<noteq> rid"
  shows "add_feedback db rid rt tx cs = db"
  using assms by (simp add: add_feedback_def map_idI)

lemma apply_feedback_fields:
  "row_id (apply_feedback rt tx cs r) = row_id r"
  "question (apply_feedback rt tx cs r) = question r"
  "catalog_sig (apply_feedback rt tx cs r) = catalog_sig r"
  "generated_sql (apply_feedback rt tx cs r) = generated_sql r"
  "created_at (apply_feedback rt tx cs r) = created_at r"
  "feedback_text (apply_feedback rt tx cs r) = tx"
  "corrected_sql (apply_feedback rt tx cs r) = cs"
  "rating (apply_feedback rt tx cs r) = (case rt of None \<Rightarrow> rating r | Some v \<Rightarrow> Some v)"
  by (simp_all add: apply_feedback_def split: option.split)

lemma apply_feedback_twice:
  "apply_feedback (Some b) tx2 cs2 (apply_feedback rt tx1 cs1 r) = apply_feedback (Some b) tx2 cs2 r"
  by (simp add: apply_feedback_def split: option.split)

lemma add_feedback_twice:
  "add_feedback (add_feedback db rid rt tx1 cs1) rid (Some b) tx2 cs2
     = add_feedback db rid (Some b) tx2 cs2"
  by (simp add: add_feedback_def apply_feedback_fields apply_feedback_twice)

lemma unique_match:
  assumes "distinct (map row_id db)" "i < length db" "j < length db"
    "row_id (db ! i) = rid" "row_id (db ! j) = rid"
  shows "i = j"
proof -
  from assms(2-5) have "map row_id db ! i = map row_id db ! j" by simp
  moreover have "i < length (map row_id db)" "j < length (map row_id db)"
    using assms(2,3) by simp_all
  ultimately show ?thesis using assms(1) nth_eq_iff_index_eq by blast
qed

text \<open>
  Claim C6.  \<open>add_feedback\<close> keeps the number of records and every record whose id
  differs from the given one.  In a record with the given id it writes the rating if and
  only if one is supplied (an omitted rating leaves the old one), always overwrites
  \<open>feedback_text\<close> and \<open>corrected_sql\<close> with the supplied values, the empty string and
  null included, and changes no other column.  Ids being unique, at most one record has
  the id; when none has it the table is unchanged.  A second call with a rating leaves
  exactly what that call alone would leave: the last write wins.
\<close>

theorem add_feedback_frame:
  "length (add_feedback db rid rt tx cs) = length db
   \<and> (\<forall>i<length db. row_id (db ! i) \<noteq> rid \<longrightarrow> add_feedback db rid rt tx cs ! i = db ! i)
   \<and> (\<forall>i<length db. row_id (db ! i) = rid \<longrightarrow>
         rating (add_feedback db rid rt tx cs ! i)
            = (case rt of None \<Rightarrow> rating (db ! i) | Some v \<Rightarrow> Some v)
         \<and> feedback_text (add_feedback db rid rt tx cs ! i) = tx
         \<and> corrected_sql (add_feedback db rid rt tx cs ! i) = cs
         \<and> row_id (add_feedback db rid rt tx cs ! i) = row_id (db ! i)
         \<and> question (add_feedback db rid rt tx cs ! i) = question (db ! i)
         \<and> catalog_sig (add_feedback db rid rt tx cs ! i) = catalog_sig (db ! i)
         \<and> generated_sql (add_feedback db rid rt tx cs ! i) = generated_sql (db ! i)
         \<and> created_at (add_feedback db rid rt tx cs ! i) = created_at (db ! i))
   \<and> (distinct (map row_id db) \<longrightarrow>
         (\<forall>i<length db. \<forall>j<length db.
            row_id (db ! i) = rid \<and> row_id (db ! j) = rid \<longrightarrow> i = j))
   \<and> ((\<forall>r\<in>set db. row_id r \<noteq> rid) \<longrightarrow> add_feedback db rid rt tx cs = db)
   \<and> add_feedback (add_feedback db rid rt tx cs) rid (Some b) tx2 cs2
        = add_feedback db rid (Some b) tx2 cs2"
proof -
  have c1: "length (add_feedback db rid rt tx cs) = length db" by (rule add_feedback_length)
  have c2: "\<forall>i<length db. row_id (db ! i) \<noteq> rid \<longrightarrow> add_feedback db rid rt tx cs ! i = db ! i"
    by (simp add: add_feedback_nth)
  have c3: "\<forall>i<length db. row_id (db ! i) = rid \<longrightarrow>
         rating (add_feedback db rid rt tx cs ! i)
            = (case rt of None \<Rightarrow> rating (db ! i) | Some v \<Rightarrow> Some v)
         \<and> feedback_text (add_feedback db rid rt tx cs ! i) = tx
         \<and> corrected_sql (add_feedback db rid rt tx cs ! i) = cs
         \<and> row_id (add_feedback db rid rt tx cs ! i) = row_id (db ! i)
         \<and> question (add_feedback db rid rt tx cs ! i) = question (db ! i)
         \<and> catalog_sig (add_feedback db rid rt tx cs ! i) = catalog_sig (db ! i)
         \<and> generated_sql (add_feedback db rid rt tx cs ! i) = generated_sql (db ! i)
         \<and> created_at (add_feedback db rid rt tx cs ! i) = created_at (db ! i)"
    by (simp add: add_feedback_nth apply_feedback_fields)
  have c4: "distinct (map row_id db) \<longrightarrow>
         (\<forall>i<length db. \<forall>j<length db.
            row_id (db ! i) = rid \<and> row_id (db ! j) = rid \<longrightarrow> i = j)"
    using unique_match by blast
  have c5: "(\<forall>r\<in>set db. row_id r \<noteq> rid) \<longrightarrow> add_feedback db rid rt tx cs = db"
    using add_feedback_no_match by blast
  have c6: "add_feedback (add_feedback db rid rt tx cs) rid (Some b) tx2 cs2
        = add_feedback db rid (Some b) tx2 cs2" by (rule add_feedback_twice)
  from c1 c2 c3 c4 c5 c6 show ?thesis by (intro conjI)
qed


text \<open>The theorem on a table of two records: a call on record 2 with no rating, an
  empty text and no corrected query keeps its rating and overwrites both texts.\<close>

theorem add_feedback_frame_witness:
  "rating (add_feedback
     [\<lparr> row_id = 1, question = ''q1'', catalog_sig = ''s'', generated_sql = ''select 1'', corrected_sql = None, rating = None, feedback_text = None, created_at = ''2024-01-01 00:00:00'' \<rparr>,
      \<lparr> row_id = 2, question = ''q2'', catalog_sig = ''s'', generated_sql = ''select 2'', corrected_sql = Some ''select 3'', rating = Some (- 1), feedback_text = Some ''old'', created_at = ''2024-01-02 00:00:00'' \<rparr>] 2 None (Some []) None ! 1) = Some (- 1)
   \<and> feedback_text (add_feedback
     [\<lparr> row_id = 1, question = ''q1'', catalog_sig = ''s'', generated_sql = ''select 1'', corrected_sql = None, rating = None, feedback_text = None, created_at = ''2024-01-01 00:00:00'' \<rparr>,
      \<lparr> row_id = 2, question = ''q2'', catalog_sig = ''s'', generated_sql = ''select 2'', corrected_sql = Some ''select 3'', rating = Some (- 1), feedback_text = Some ''old'', created_at = ''2024-01-02 00:00:00'' \<rparr>] 2 None (Some []) None ! 1) = Some []
   \<and> corrected_sql (add_feedback
     [\<lparr> row_id = 1, question = ''q1'', catalog_sig = ''s'', generated_sql = ''select 1'', corrected_sql = None, rating = None, feedback_text = None, created_at = ''2024-01-01 00:00:00'' \<rparr>,
      \<lparr> row_id = 2, question = ''q2'', catalog_sig = ''s'', generated_sql = ''select 2'', corrected_sql = Some ''select 3'', rating = Some (- 1), feedback_text = Some ''old'', created_at = ''2024-01-02 00:00:00'' \<rparr>] 2 None (Some []) None ! 1) = None
   \<and> add_feedback
     [\<lparr> row_id = 1, question = ''q1'', catalog_sig = ''s'', generated_sql = ''select 1'', corrected_sql = None, rating = None, feedback_text = None, created_at = ''2024-01-01 00:00:00'' \<rparr>,
      \<lparr> row_id = 2, question = ''q2'', catalog_sig = ''s'', generated_sql = ''select 2'', corrected_sql = Some ''select 3'', rating = Some (- 1), feedback_text = Some ''old'', created_at = ''2024-01-02 00:00:00'' \<rparr>] 2 None (Some []) None ! 0
     = \<lparr> row_id = 1, question = ''q1'', catalog_sig = ''s'', generated_sql = ''select 1'', corrected_sql = None, rating = None, feedback_text = None, created_at = ''2024-01-01 00:00:00'' \<rparr>"
proof -
  let ?db = "[\<lparr> row_id = 1, question = ''q1'', catalog_sig = ''s'', generated_sql = ''select 1'', corrected_sql = None, rating = None, feedback_text = None, created_at = ''2024-01-01 00:00:00'' \<rparr>,
      \<lparr> row_id = 2, question = ''q2'', catalog_sig = ''s'', generated_sql = ''select 2'', corrected_sql = Some ''select 3'', rating = Some (- 1), feedback_text = Some ''old'', created_at = ''2024-01-02 00:00:00'' \<rparr>]"
  note P = add_feedback_frame [where db = ?db and rid = 2 and rt = None and tx = "Some []"
      and cs = None]
  have i1: "(1::nat) < length ?db" and m1: "row_id (?db ! 1) = 2" by simp_all
  have i0: "(0::nat) < length ?db" and m0: "row_id (?db ! 0) \<noteq> 2" by simp_all
  from P [THEN conjunct2, THEN conjunct2, THEN conjunct1] i1 m1
  have "rating (add_feedback ?db 2 None (Some []) None ! 1)
          = (case None of None \<Rightarrow> rating (?db ! 1) | Some v \<Rightarrow> Some v)
        \<and> feedback_text (add_feedback ?db 2 None (Some []) None ! 1) = Some []
        \<and> corrected_sql (add_feedback ?db 2 None (Some []) None ! 1) = None"
    by blast
  moreover from P [THEN conjunct2, THEN conjunct1] i0 m0
  have "add_feedback ?db 2 None (Some []) None ! 0 = ?db ! 0" by blast
  ultimately show ?thesis by simp
qed

section \<open>Ranking the examples\<close>


















section \<open>The wrapped statement\<close>

lemma no_sublist_wrapped:
  assumes "\<not> sublist b A" "\<not> sublist b T" "\<not> sublist b B"
    and "p \<notin> set b" "q \<notin> set b" "b \<noteq> []" "last b \<notin> set D"
  shows "\<not> sublist b (A @ p # (T @ q # (B @ D)))"
proof
  assume "sublist b (A @ p # (T @ q # (B @ D)))"
  then have "sublist b A \<or> sublist b (T @ q # (B @ D))"
    using assms(4) by (rule sublist_split)
  with assms(1) have "sublist b (T @ q # (B @ D))" by blast
  then have "sublist b T \<or> sublist b (B @ D)"
    using assms(5) by (rule sublist_split)
  with assms(2) have "sublist b (B @ D)" by blast
  then have "sublist b B" using assms(6,7) by (rule sublist_drop_tail)
  with assms(3) show False by blast
qed

lemma banned_shape:
  "\<forall>b\<in>set banned. CHR ''('' \<notin> set b \<and> CHR '')'' \<notin> set b \<and> b \<noteq> [] \<and> last b = CHR '' ''
      \<and> \<not> sublist b ''select * from '' \<and> \<not> sublist b '' q limit ''"
  by code_simp

lemma py_lower_wrap_limit:
  "py_lower (wrap_limit t n) =
     ''select * from '' @ CHR ''('' # (py_lower t @ CHR '')'' # ('' q limit '' @ py_lower (str_int n)))"
proof -
  have e1: "py_lower ''SELECT * FROM ('' = ''select * from ('' " by code_simp
  have e2: "py_lower '') q LIMIT '' = '') q limit ''" by code_simp
  have "py_lower (wrap_limit t n) =
      py_lower ''SELECT * FROM ('' @ py_lower t @ py_lower '') q LIMIT '' @ py_lower (str_int n)"
    by (simp only: wrap_limit_def py_lower_def map_append)
  then show ?thesis by (simp only: e1 e2 append_Cons append_Nil)
qed

lemma space_not_in_lowered_int: "CHR '' '' \<notin> set (py_lower (str_int n))"
proof
  assume "CHR '' '' \<in> set (py_lower (str_int n))"
  then have "CHR '' '' \<in> py_lower_char ` set (str_int n)"
    by (simp only: py_lower_def set_map)
  then obtain c where "c \<in> set (str_int n)" "py_lower_char c = CHR '' ''" by (rule imageE) simp
  with str_int_plain [of n] show False by blast
qed

lemma wrap_limit_no_banned:
  assumes "b \<in> set banned" and "\<not> sublist b (py_lower t)"
  shows "\<not> sublist b (py_lower (wrap_limit t n))"
proof -
  have s: "CHR ''('' \<notin> set b \<and> CHR '')'' \<notin> set b \<and> b \<noteq> [] \<and> last b = CHR '' ''
      \<and> \<not> sublist b ''select * from '' \<and> \<not> sublist b '' q limit ''"
    using banned_shape assms(1) by (rule bspec)
  have l: "last b \<notin> set (py_lower (str_int n))"
    using space_not_in_lowered_int [of n] s by simp
  have "\<not> sublist b (''select * from '' @ CHR ''('' #
      (py_lower t @ CHR '')'' # ('' q limit '' @ py_lower (str_int n))))"
    using s assms(2) l by (intro no_sublist_wrapped) simp_all
  then show ?thesis unfolding py_lower_wrap_limit .
qed

lemma wrap_limit_stripped: "py_strip (wrap_limit t n) = wrap_limit t n"
proof -
  have h: "hd (wrap_limit t n) = CHR ''S''" by (simp add: wrap_limit_def)
  have ne: "wrap_limit t n \<noteq> []" by (simp add: wrap_limit_def)
  have "last (wrap_limit t n) = last (str_int n)"
    using str_int_nonempty [of n] by (simp add: wrap_limit_def)
  moreover have "last (str_int n) \<in> set (str_int n)"
    using str_int_nonempty [of n] by simp
  ultimately have l: "\<not> py_isspace (last (wrap_limit t n))"
    using str_int_plain [of n] by simp
  have "\<not> py_isspace (CHR ''S'')" by code_simp
  with h have "\<not> py_isspace (hd (wrap_limit t n))" by simp
  with l show ?thesis unfolding py_strip_def by (intro strip_by_fix) simp
qed

lemma wrap_limit_no_semicolon:
  assumes "CHR '';'' \<notin> set t"
  shows "CHR '';'' \<notin> set (wrap_limit t n)"
proof -
  have a: "CHR '';'' \<notin> set ''SELECT * FROM (''" "CHR '';'' \<notin> set '') q LIMIT ''" by code_simp+
  have "set (wrap_limit t n) =
      set ''SELECT * FROM ('' \<union> set t \<union> set '') q LIMIT '' \<union> set (str_int n)"
    by (simp only: wrap_limit_def set_append Un_assoc)
  with a assms str_int_plain [of n] show ?thesis by blast
qed

lemma wrap_limit_select: "prefix ''select'' (py_lower (py_strip (wrap_limit t n)))"
  unfolding wrap_limit_stripped py_lower_wrap_limit by simp

lemma gate_output_stripped:
  assumes "sql_gate m s = Inr t"
  shows "py_strip t = t"
proof -
  from assms sql_gate_Inr_iff [of m s t] have "t = trim_sql s" by blast
  then show ?thesis unfolding trim_sql_def py_strip_def by (simp add: strip_by_idem)
qed

section \<open>Both call sites of the gate\<close>

lemma gate_read_only:
  assumes "sql_gate m s = Inr t"
  shows "(CHR '';'' \<notin> set t
     \<and> \<not> (\<exists>b\<in>set [''drop '', ''delete '', ''update '', ''insert '', ''create '', ''alter '',
              ''truncate '', ''grant '', ''revoke '']. sublist b (py_lower t))
     \<and> (prefix ''select'' (py_lower (py_strip t)) \<or> prefix ''with'' (py_lower (py_strip t))))"
proof -
  from assms sql_gate_Inr_iff [of m s t] have semi: "CHR '';'' \<notin> set t"
    and ban: "\<forall>b\<in>set banned. \<not> sublist b (py_lower t)"
    and start: "prefix ''select'' (py_lower t) \<or> prefix ''with'' (py_lower t)"
    by blast+
  from assms have st: "py_strip t = t" by (rule gate_output_stripped)
  from ban have nb: "\<not> (\<exists>b\<in>set [''drop '', ''delete '', ''update '', ''insert '', ''create '', ''alter '',
              ''truncate '', ''grant '', ''revoke '']. sublist b (py_lower t))"
    unfolding banned_set [symmetric] by blast
  from semi nb start show ?thesis unfolding st by (intro conjI)
qed

lemma wrap_read_only:
  assumes "CHR '';'' \<notin> set t"
    and "\<not> (\<exists>b\<in>set [''drop '', ''delete '', ''update '', ''insert '', ''create '', ''alter '',
              ''truncate '', ''grant '', ''revoke '']. sublist b (py_lower t))"
  shows "(CHR '';'' \<notin> set (wrap_limit t n)
     \<and> \<not> (\<exists>b\<in>set [''drop '', ''delete '', ''update '', ''insert '', ''create '', ''alter '',
              ''truncate '', ''grant '', ''revoke '']. sublist b (py_lower (wrap_limit t n)))
     \<and> (prefix ''select'' (py_lower (py_strip (wrap_limit t n))) \<or> prefix ''with'' (py_lower (py_strip (wrap_limit t n)))))"
proof -
  have 1: "CHR '';'' \<notin> set (wrap_limit t n)" using assms(1) by (rule wrap_limit_no_semicolon)
  from assms(2) have "\<forall>b\<in>set banned. \<not> sublist b (py_lower t)"
    unfolding banned_set [symmetric] by blast
  then have "\<forall>b\<in>set banned. \<not> sublist b (py_lower (wrap_limit t n))"
    using wrap_limit_no_banned by blast
  then have 2: "\<not> (\<exists>b\<in>set [''drop '', ''delete '', ''update '', ''insert '', ''create '', ''alter '',
              ''truncate '', ''grant '', ''revoke '']. sublist b (py_lower (wrap_limit t n)))"
    unfolding banned_set [symmetric] by blast
  have 3: "prefix ''select'' (py_lower (py_strip (wrap_limit t n)))
       \<or> prefix ''with'' (py_lower (py_strip (wrap_limit t n)))"
    using wrap_limit_select [of t n] by (rule disjI1)
  from 1 2 3 show ?thesis by (intro conjI)
qed

text \<open>
  Claim C1.  \<open>run_sql\<close> hands the connection nothing when \<open>_validate_sql\<close> raises, and
  otherwise exactly one statement, the validated text wrapped in the limiting query;
  \<open>generate_sql\<close> returns the planner's query only as \<open>_sanitize_sql\<close> returns it and
  raises when that raises.  So every statement the connection is newly asked to execute,
  the validated text inside it, and every query returned in a plan hold no statement
  terminator, none of the nine banned keyword-prefixes, and begin, case-insensitively
  after trimming, with \<open>select\<close> or \<open>with\<close>.
\<close>

theorem both_call_sites_validate:
  "(case validate_sql q of
      Inl e \<Rightarrow> run_sql L st q n = (Inl e, st)
    | Inr t \<Rightarrow>
        run_sql L st q n
          = (run_query L (registered st) (wrap_limit t n),
             st \<lparr> executed := executed st @ [wrap_limit t n] \<rparr>)
        \<and> (CHR '';'' \<notin> set t
          \<and> \<not> (\<exists>b\<in>set [''drop '', ''delete '', ''update '', ''insert '', ''create '', ''alter '',
              ''truncate '', ''grant '', ''revoke '']. sublist b (py_lower t))
          \<and> (prefix ''select'' (py_lower (py_strip t)) \<or> prefix ''with'' (py_lower (py_strip t))))
        \<and> (CHR '';'' \<notin> set (wrap_limit t n)
          \<and> \<not> (\<exists>b\<in>set [''drop '', ''delete '', ''update '', ''insert '', ''create '', ''alter '',
              ''truncate '', ''grant '', ''revoke '']. sublist b (py_lower (wrap_limit t n)))
          \<and> (prefix ''select'' (py_lower (py_strip (wrap_limit t n))) \<or> prefix ''with'' (py_lower (py_strip (wrap_limit t n))))))
   \<and> (\<forall>w\<in>set (executed (snd (run_sql L st q n))). w \<in> set (executed st)
        \<or> (CHR '';'' \<notin> set w
          \<and> \<not> (\<exists>b\<in>set [''drop '', ''delete '', ''update '', ''insert '', ''create '', ''alter '',
              ''truncate '', ''grant '', ''revoke '']. sublist b (py_lower w))
          \<and> (prefix ''select'' (py_lower (py_strip w)) \<or> prefix ''with'' (py_lower (py_strip w)))))
   \<and> (case reply of
      Inl e \<Rightarrow> generate_sql reply = Inl e
    | Inr p0 \<Rightarrow>
        (case sanitize_sql (sql p0) of
           Inl e \<Rightarrow> generate_sql reply = Inl e
         | Inr t \<Rightarrow>
             generate_sql reply = Inr \<lparr> sql = t, explanation = py_strip (explanation p0) \<rparr>
             \<and> (CHR '';'' \<notin> set t
               \<and> \<not> (\<exists>b\<in>set [''drop '', ''delete '', ''update '', ''insert '', ''create '', ''alter '',
              ''truncate '', ''grant '', ''revoke '']. sublist b (py_lower t))
               \<and> (prefix ''select'' (py_lower (py_strip t)) \<or> prefix ''with'' (py_lower (py_strip t))))))
   \<and> (\<forall>p. generate_sql reply = Inr p \<longrightarrow>
        (CHR '';'' \<notin> set (sql p)
          \<and> \<not> (\<exists>b\<in>set [''drop '', ''delete '', ''update '', ''insert '', ''create '', ''alter '',
              ''truncate '', ''grant '', ''revoke '']. sublist b (py_lower (sql p)))
          \<and> (prefix ''select'' (py_lower (py_strip (sql p))) \<or> prefix ''with'' (py_lower (py_strip (sql p))))))"
proof -
  have c1: "(case validate_sql q of
      Inl e \<Rightarrow> run_sql L st q n = (Inl e, st)
    | Inr t \<Rightarrow>
        run_sql L st q n
          = (run_query L (registered st) (wrap_limit t n),
             st \<lparr> executed := executed st @ [wrap_limit t n] \<rparr>)
        \<and> (CHR '';'' \<notin> set t
          \<and> \<not> (\<exists>b\<in>set [''drop '', ''delete '', ''update '', ''insert '', ''create '', ''alter '',
              ''truncate '', ''grant '', ''revoke '']. sublist b (py_lower t))
          \<and> (prefix ''select'' (py_lower (py_strip t)) \<or> prefix ''with'' (py_lower (py_strip t))))
        \<and> (CHR '';'' \<notin> set (wrap_limit t n)
          \<and> \<not> (\<exists>b\<in>set [''drop '', ''delete '', ''update '', ''insert '', ''create '', ''alter '',
              ''truncate '', ''grant '', ''revoke '']. sublist b (py_lower (wrap_limit t n)))
          \<and> (prefix ''select'' (py_lower (py_strip (wrap_limit t n))) \<or> prefix ''with'' (py_lower (py_strip (wrap_limit t n))))))"
  proof (cases "validate_sql q")
    case (Inl e)
    then show ?thesis by (simp add: run_sql_def)
  next
    case (Inr t)
    then have g: "sql_gate ''Only one SQL statement is allowed (no semicolons).'' q = Inr t"
      by (simp only: validate_sql_def)
    note r = gate_read_only [OF g]
    note w = wrap_read_only [OF r [THEN conjunct1] r [THEN conjunct2, THEN conjunct1], of n]
    have "run_sql L st q n
          = (run_query L (registered st) (wrap_limit t n),
             st \<lparr> executed := executed st @ [wrap_limit t n] \<rparr>)"
      using Inr by (simp add: run_sql_def Let_def)
    with r w show ?thesis unfolding Inr sum.case
      by - (rule conjI, assumption, rule conjI, assumption, assumption)
  qed
  have c2: "(\<forall>w\<in>set (executed (snd (run_sql L st q n))). w \<in> set (executed st)
        \<or> (CHR '';'' \<notin> set w
          \<and> \<not> (\<exists>b\<in>set [''drop '', ''delete '', ''update '', ''insert '', ''create '', ''alter '',
              ''truncate '', ''grant '', ''revoke '']. sublist b (py_lower w))
          \<and> (prefix ''select'' (py_lower (py_strip w)) \<or> prefix ''with'' (py_lower (py_strip w)))))"
  proof (cases "validate_sql q")
    case (Inl e)
    with c1 have "run_sql L st q n = (Inl e, st)" by simp
    then show ?thesis by simp
  next
    case (Inr t)
    with c1 have run: "run_sql L st q n
          = (run_query L (registered st) (wrap_limit t n),
             st \<lparr> executed := executed st @ [wrap_limit t n] \<rparr>)"
      and w: "(CHR '';'' \<notin> set (wrap_limit t n)
          \<and> \<not> (\<exists>b\<in>set [''drop '', ''delete '', ''update '', ''insert '', ''create '', ''alter '',
              ''truncate '', ''grant '', ''revoke '']. sublist b (py_lower (wrap_limit t n)))
          \<and> (prefix ''select'' (py_lower (py_strip (wrap_limit t n))) \<or> prefix ''with'' (py_lower (py_strip (wrap_limit t n)))))"
      unfolding Inr sum.case by blast+
    show ?thesis
    proof
      fix x assume "x \<in> set (executed (snd (run_sql L st q n)))"
      then have "x \<in> set (executed st) \<or> x = wrap_limit t n" unfolding run by auto
      with w show "x \<in> set (executed st)
        \<or> (CHR '';'' \<notin> set x
          \<and> \<not> (\<exists>b\<in>set [''drop '', ''delete '', ''update '', ''insert '', ''create '', ''alter '',
              ''truncate '', ''grant '', ''revoke '']. sublist b (py_lower x))
          \<and> (prefix ''select'' (py_lower (py_strip x)) \<or> prefix ''with'' (py_lower (py_strip x))))" by blast
    qed
  qed
  have c3: "(case reply of
      Inl e \<Rightarrow> generate_sql reply = Inl e
    | Inr p0 \<Rightarrow>
        (case sanitize_sql (sql p0) of
           Inl e \<Rightarrow> generate_sql reply = Inl e
         | Inr t \<Rightarrow>
             generate_sql reply = Inr \<lparr> sql = t, explanation = py_strip (explanation p0) \<rparr>
             \<and> (CHR '';'' \<notin> set t
               \<and> \<not> (\<exists>b\<in>set [''drop '', ''delete '', ''update '', ''insert '', ''create '', ''alter '',
              ''truncate '', ''grant '', ''revoke '']. sublist b (py_lower t))
               \<and> (prefix ''select'' (py_lower (py_strip t)) \<or> prefix ''with'' (py_lower (py_strip t))))))"
  proof (cases reply)
    case (Inl e)
    then show ?thesis by (simp add: generate_sql_def)
  next
    case outer: (Inr p0)
    show ?thesis
    proof (cases "sanitize_sql (sql p0)")
      case (Inl e)
      with outer show ?thesis by (simp add: generate_sql_def)
    next
      case (Inr t)
      then have g: "sql_gate ''SQL contains a semicolon; only one statement is allowed.'' (sql p0) = Inr t"
        by (simp only: sanitize_sql_def)
      note r = gate_read_only [OF g]
      have "generate_sql reply = Inr \<lparr> sql = t, explanation = py_strip (explanation p0) \<rparr>"
        using outer Inr by (simp add: generate_sql_def)
      with r show ?thesis unfolding outer Inr sum.case
        by - (rule conjI, assumption, assumption)
    qed
  qed
  have c4: "(\<forall>p. generate_sql reply = Inr p \<longrightarrow>
        (CHR '';'' \<notin> set (sql p)
          \<and> \<not> (\<exists>b\<in>set [''drop '', ''delete '', ''update '', ''insert '', ''create '', ''alter '',
              ''truncate '', ''grant '', ''revoke '']. sublist b (py_lower (sql p)))
          \<and> (prefix ''select'' (py_lower (py_strip (sql p))) \<or> prefix ''with'' (py_lower (py_strip (sql p))))))"
  proof (intro allI impI)
    fix p assume p: "generate_sql reply = Inr p"
    then obtain p0 where outer: "reply = Inr p0"
      by (cases reply) (simp_all add: generate_sql_def)
    from p outer obtain t where t: "sanitize_sql (sql p0) = Inr t" and "sql p = t"
      by (cases "sanitize_sql (sql p0)") (auto simp add: generate_sql_def)
    from t have g: "sql_gate ''SQL contains a semicolon; only one statement is allowed.'' (sql p0) = Inr t"
      by (simp only: sanitize_sql_def)
    from gate_read_only [OF g] \<open>sql p = t\<close>
    show "(CHR '';'' \<notin> set (sql p)
          \<and> \<not> (\<exists>b\<in>set [''drop '', ''delete '', ''update '', ''insert '', ''create '', ''alter '',
              ''truncate '', ''grant '', ''revoke '']. sublist b (py_lower (sql p)))
          \<and> (prefix ''select'' (py_lower (py_strip (sql p))) \<or> prefix ''with'' (py_lower (py_strip (sql p)))))" by simp
  qed
  from c1 c2 c3 c4 show ?thesis by (intro conjI)
qed


text \<open>The theorem on a store with nothing executed yet and on two replies of the
  planner: one statement is executed, a destructive one never reaches the connection,
  and a reply with two statements is refused.\<close>

theorem both_call_sites_validate_witness:
  "executed (snd (run_sql
      \<lparr> accepts = (\<lambda>t df. True), dtype_of = (\<lambda>df c. Some ''int64''),
        run_query = (\<lambda>views q. Inr \<lparr> columns = [''x''], data = [[1::nat]] \<rparr>) \<rparr>
      \<lparr> registered = [], executed = [], tables = [] \<rparr> ''  select 1; '' 200))
     = [''SELECT * FROM (select 1) q LIMIT 200'']
   \<and> run_sql
      \<lparr> accepts = (\<lambda>t df. True), dtype_of = (\<lambda>df c. Some ''int64''),
        run_query = (\<lambda>views q. Inr \<lparr> columns = [''x''], data = [[1::nat]] \<rparr>) \<rparr>
      \<lparr> registered = [], executed = [], tables = [] \<rparr> ''DROP TABLE t'' 200
     = (Inl (ValueError ''Destructive SQL is not allowed.''), \<lparr> registered = [], executed = [], tables = [] \<rparr>)
   \<and> generate_sql (Inr \<lparr> sql = ''SELECT a FROM t;'', explanation = '' ok '' \<rparr>)
     = Inr \<lparr> sql = ''SELECT a FROM t'', explanation = ''ok'' \<rparr>
   \<and> generate_sql (Inr \<lparr> sql = ''select 1; delete from t'', explanation = ''ok'' \<rparr>)
     = Inl (ValueError ''SQL contains a semicolon; only one statement is allowed.'')"
proof -
  let ?L = "\<lparr> accepts = (\<lambda>t df. True), dtype_of = (\<lambda>df c. Some ''int64''),
        run_query = (\<lambda>views q. Inr \<lparr> columns = [''x''], data = [[1::nat]] \<rparr>) \<rparr>"
  let ?st = "\<lparr> registered = [], executed = [], tables = [] \<rparr> :: nat store"
  have v1: "validate_sql ''  select 1; '' = Inr ''select 1''" by code_simp
  have w1: "wrap_limit ''select 1'' 200 = ''SELECT * FROM (select 1) q LIMIT 200''" by code_simp
  have v2: "validate_sql ''DROP TABLE t'' = Inl (ValueError ''Destructive SQL is not allowed.'')"
    by code_simp
  have s1: "sanitize_sql ''SELECT a FROM t;'' = Inr ''SELECT a FROM t''" by code_simp
  have e1: "py_strip '' ok '' = ''ok''" by code_simp
  have s2: "sanitize_sql ''select 1; delete from t''
      = Inl (ValueError ''SQL contains a semicolon; only one statement is allowed.'')" by code_simp
  from both_call_sites_validate [where L = ?L and st = ?st and q = "''  select 1; ''" and n = 200,
      THEN conjunct1]
  have "run_sql ?L ?st ''  select 1; '' 200
          = (run_query ?L (registered ?st) (wrap_limit ''select 1'' 200),
             ?st \<lparr> executed := executed ?st @ [wrap_limit ''select 1'' 200] \<rparr>)"
    unfolding v1 sum.case by (rule conjunct1)
  then have a: "executed (snd (run_sql ?L ?st ''  select 1; '' 200))
      = [''SELECT * FROM (select 1) q LIMIT 200'']"
    unfolding w1 by simp
  from both_call_sites_validate [where L = ?L and st = ?st and q = "''DROP TABLE t''" and n = 200,
      THEN conjunct1]
  have b: "run_sql ?L ?st ''DROP TABLE t'' 200
      = (Inl (ValueError ''Destructive SQL is not allowed.''), ?st)"
    unfolding v2 sum.case .
  from both_call_sites_validate [where reply = "Inr \<lparr> sql = ''SELECT a FROM t;'', explanation = '' ok '' \<rparr>",
      THEN conjunct2, THEN conjunct2, THEN conjunct1]
  have "generate_sql (Inr \<lparr> sql = ''SELECT a FROM t;'', explanation = '' ok '' \<rparr>)
      = Inr \<lparr> sql = ''SELECT a FROM t'', explanation = py_strip '' ok '' \<rparr>"
    unfolding sum.case plan.simps s1 by (rule conjunct1)
  then have c: "generate_sql (Inr \<lparr> sql = ''SELECT a FROM t;'', explanation = '' ok '' \<rparr>)
      = Inr \<lparr> sql = ''SELECT a FROM t'', explanation = ''ok'' \<rparr>"
    unfolding e1 .
  from both_call_sites_validate [where reply = "Inr \<lparr> sql = ''select 1; delete from t'', explanation = ''ok'' \<rparr>",
      THEN conjunct2, THEN conjunct2, THEN conjunct1]
  have d: "generate_sql (Inr \<lparr> sql = ''select 1; delete from t'', explanation = ''ok'' \<rparr>)
      = Inl (ValueError ''SQL contains a semicolon; only one statement is allowed.'')"
    unfolding sum.case plan.simps s2 .
  from a b c d show ?thesis by (intro conjI)
qed

section \<open>Reading the rendered limit back\<close>








section \<open>The limited query\<close>





section \<open>Ingesting a workbook\<close>

lemma unique_loop_spec:
  "unique_loop keys orig tname i \<notin> set keys
   \<and> (tname \<notin> set keys \<longrightarrow> unique_loop keys orig tname i = tname)
   \<and> (tname \<in> set keys \<longrightarrow>
        (\<exists>k\<ge>i. unique_loop keys orig tname i = orig @ ''_'' @ str_nat k
           \<and> (\<forall>j. i \<le> j \<and> j < k \<longrightarrow> orig @ ''_'' @ str_nat j \<in> set keys)))"
proof (induction keys orig tname i rule: unique_loop.induct)
  case (1 keys orig tname i)
  show ?case
  proof (cases "tname \<in> set keys")
    case False
    then show ?thesis by (simp add: unique_loop.simps [of keys orig tname i])
  next
    case True
    let ?next = "orig @ ''_'' @ str_nat i"
    have step: "unique_loop keys orig tname i = unique_loop keys orig ?next (i + 1)"
      using True by (simp add: unique_loop.simps [of keys orig tname i])
    note IH = 1 [OF True]
    show ?thesis
    proof (cases "?next \<in> set keys")
      case False
      with IH have "unique_loop keys orig ?next (i + 1) = ?next" by blast
      with step False True show ?thesis by auto
    next
      case inner: True
      with IH obtain k where k: "i + 1 \<le> k"
        "unique_loop keys orig ?next (i + 1) = orig @ ''_'' @ str_nat k"
        "\<forall>j. i + 1 \<le> j \<and> j < k \<longrightarrow> orig @ ''_'' @ str_nat j \<in> set keys"
        by blast
      have "\<forall>j. i \<le> j \<and> j < k \<longrightarrow> orig @ ''_'' @ str_nat j \<in> set keys"
      proof (intro allI impI)
        fix j assume "i \<le> j \<and> j < k"
        then consider "j = i" | "i + 1 \<le> j \<and> j < k" by linarith
        then show "orig @ ''_'' @ str_nat j \<in> set keys"
          using inner k(3) by cases auto
      qed
      moreover from k(1) have "i \<le> k" by simp
      moreover from IH have "unique_loop keys orig ?next (i + 1) \<notin> set keys" by blast
      ultimately show ?thesis using step True k(2) by auto
    qed
  qed
qed

lemma unique_name_spec:
  "unique_name keys orig \<notin> set keys
   \<and> (orig \<notin> set keys \<longrightarrow> unique_name keys orig = orig)
   \<and> (orig \<in> set keys \<longrightarrow>
        (\<exists>k\<ge>2. unique_name keys orig = orig @ ''_'' @ str_nat k
           \<and> (\<forall>j. 2 \<le> j \<and> j < k \<longrightarrow> orig @ ''_'' @ str_nat j \<in> set keys)))"
  unfolding unique_name_def by (rule unique_loop_spec)

end
